theory Spec2Isabelle
  imports Complex_Main "HOL-Library.Sublist"
begin

section \<open>Python values\<close>

text \<open>
  A Python \<^verbatim>\<open>str\<close> is a sequence of Unicode code points, so it is modelled as a list
  of naturals. \<open>ascii\<close> turns an ASCII literal into such a list.
\<close>

type_synonym ustr = "nat list"

definition ascii :: "string \<Rightarrow> ustr" where
  "ascii s = map of_char s"

text \<open>The exceptions the modelled code can raise.\<close>

datatype py_error =
    OverflowError
  | ValueError ustr
  | KeyError ustr
  | IndexError
  | OtherError ustr

text \<open>
  A Python \<^verbatim>\<open>float\<close> is an IEEE-754 binary64 value. A finite one is represented by
  the rational it denotes (the two zeros are the one value \<open>Finite 0\<close>: \<^verbatim>\<open>==\<close> and
  \<^verbatim>\<open>>\<close> do not tell them apart).
\<close>

datatype pyfloat = Finite rat | PosInf | NegInf | NaN


subsection \<open>Correctly rounded conversion to binary64\<close>

text \<open>
  \<^verbatim>\<open>float(s)\<close>, \<^verbatim>\<open>float(n)\<close> and a float literal all denote the binary64 value
  nearest to the exact number, ties to the even significand. \<open>round_ratio n d\<close> is
  that rounding of the positive fraction \<open>n / d\<close>: 53 significant bits, least exponent
  \<open>-1074\<close>, overflow at \<open>2 ^ 1024\<close>. It works on naturals only.
\<close>

fun bit_length :: "nat \<Rightarrow> nat" where
  "bit_length n = (if n = 0 then 0 else Suc (bit_length (n div 2)))"

declare bit_length.simps [simp del]

definition pow2 :: "int \<Rightarrow> rat" where
  "pow2 e = (if 0 \<le> e then 2 ^ nat e else 1 / 2 ^ nat (- e))"

definition round_div_half_even :: "nat \<Rightarrow> nat \<Rightarrow> nat" where
  "round_div_half_even n d =
     (let q = n div d; r = n mod d
      in if 2 * r < d then q
         else if d < 2 * r then q + 1
         else if even q then q else q + 1)"

text \<open>\<open>\<lfloor>log\<^sub>2 (n / d)\<rfloor>\<close> for positive \<open>n\<close> and \<open>d\<close>.\<close>

definition floor_log2_ratio :: "nat \<Rightarrow> nat \<Rightarrow> int" where
  "floor_log2_ratio n d =
     (let e0 = int (bit_length n) - int (bit_length d)
      in if (if 0 \<le> e0 then d * 2 ^ nat e0 \<le> n else d \<le> n * 2 ^ nat (- e0))
         then e0 else e0 - 1)"

text \<open>The significand: \<open>n / d\<close> in units of \<open>2 ^ p\<close>, rounded.\<close>

definition scaled_round :: "nat \<Rightarrow> nat \<Rightarrow> int \<Rightarrow> nat" where
  "scaled_round n d p =
     (if 0 \<le> p then round_div_half_even n (d * 2 ^ nat p)
      else round_div_half_even (n * 2 ^ nat (- p)) d)"

definition pack64 :: "nat \<Rightarrow> int \<Rightarrow> pyfloat" where
  "pack64 m p =
     (if 0 \<le> p \<and> 2 ^ 1024 \<le> m * 2 ^ nat p then PosInf
      else Finite (of_nat m * pow2 p))"

definition round_ratio :: "nat \<Rightarrow> nat \<Rightarrow> pyfloat" where
  "round_ratio n d =
     (if n = 0 then Finite 0
      else let p = max (floor_log2_ratio n d - 52) (- 1074)
           in pack64 (scaled_round n d p) p)"

fun float_neg :: "pyfloat \<Rightarrow> pyfloat" where
  "float_neg (Finite q) = Finite (- q)"
| "float_neg PosInf = NegInf"
| "float_neg NegInf = PosInf"
| "float_neg NaN = NaN"

text \<open>
  The double that the decimal numeral with digits \<open>n\<close>, of which \<open>k\<close> stand after the
  point, denotes: \<^verbatim>\<open>1234.56\<close> is \<open>decimal_float False 123456 2\<close>.
\<close>

definition decimal_float :: "bool \<Rightarrow> nat \<Rightarrow> nat \<Rightarrow> pyfloat" where
  "decimal_float neg n k =
     (let f = round_ratio n (10 ^ k) in if neg then float_neg f else f)"

text \<open>\<^verbatim>\<open>float(n)\<close> for a Python \<^verbatim>\<open>int\<close>: the nearest double, or
  \<^verbatim>\<open>OverflowError: int too large to convert to float\<close>.\<close>

definition py_float_int :: "int \<Rightarrow> py_error + pyfloat" where
  "py_float_int n =
     (case round_ratio (nat \<bar>n\<bar>) 1 of
        Finite q \<Rightarrow> Inr (Finite (if n < 0 then - q else q))
      | _ \<Rightarrow> Inl OverflowError)"

text \<open>
  \<^verbatim>\<open>float(s)\<close> for a string. \<open>to_number\<close> calls it only on strings over the
  characters \<^verbatim>\<open>0-9\<close>, \<^verbatim>\<open>.\<close> and \<^verbatim>\<open>-\<close>; on those Python's float grammar is
  \<^verbatim>\<open>[-] (digits [. [digits]] | . digits)\<close>, every other such string raises
  \<^verbatim>\<open>ValueError\<close>, and a value too large becomes \<^verbatim>\<open>inf\<close>. (Exponents, \<^verbatim>\<open>+\<close>,
  underscores, blanks, \<^verbatim>\<open>inf\<close> and \<^verbatim>\<open>nan\<close> need characters outside that alphabet;
  the definition answers \<^verbatim>\<open>ValueError\<close> for them and is not meant for them.)
\<close>

definition is_digit :: "nat \<Rightarrow> bool" where
  "is_digit c = (48 \<le> c \<and> c \<le> 57)"

definition digits_value :: "ustr \<Rightarrow> nat" where
  "digits_value ds = foldl (\<lambda>acc c. 10 * acc + (c - 48)) 0 ds"

definition py_float_str :: "ustr \<Rightarrow> py_error + pyfloat" where
  "py_float_str s =
     (let neg = (s \<noteq> [] \<and> hd s = 45);
          b = (if neg then tl s else s);
          ip = takeWhile is_digit b;
          rest = dropWhile is_digit b
      in if rest = [] then
           (if ip = [] then Inl (ValueError s)
            else Inr (decimal_float neg (digits_value ip) 0))
         else if hd rest = 46 \<and> list_all is_digit (tl rest) \<and> (ip \<noteq> [] \<or> tl rest \<noteq> [])
           then Inr (decimal_float neg (digits_value (ip @ tl rest)) (length (tl rest)))
         else Inl (ValueError s))"

section \<open>Table cells\<close>

text \<open>
  What a cell of a \<^verbatim>\<open>DataFrame\<close> can hold when it reaches the code: \<^verbatim>\<open>None\<close>,
  a \<^verbatim>\<open>bool\<close>, a Python \<^verbatim>\<open>int\<close> (unbounded), a \<^verbatim>\<open>float\<close> (\<^verbatim>\<open>nan\<close> included),
  a \<^verbatim>\<open>str\<close>, another missing marker (\<^verbatim>\<open>NaT\<close>, \<^verbatim>\<open>NA\<close>), or any other object.
  The last two carry the text \<^verbatim>\<open>str()\<close> gives for them.
\<close>

datatype cell =
    CNone
  | CBool bool
  | CInt int
  | CFloat pyfloat
  | CStr ustr
  | CMissing ustr
  | CObj ustr

fun pd_isna :: "cell \<Rightarrow> bool" where
  "pd_isna CNone = True"
| "pd_isna (CFloat NaN) = True"
| "pd_isna (CMissing _) = True"
| "pd_isna _ = False"

section \<open>NumericNormalizer: \<^verbatim>\<open>to_number\<close> (app.py, lines 98-113)\<close>

definition replace_char :: "nat \<Rightarrow> nat \<Rightarrow> ustr \<Rightarrow> ustr" where
  "replace_char a b s = map (\<lambda>c. if c = a then b else c) s"

definition remove_char :: "nat \<Rightarrow> ustr \<Rightarrow> ustr" where
  "remove_char a s = filter (\<lambda>c. c \<noteq> a) s"

definition numeric_char :: "nat \<Rightarrow> bool" where
  "numeric_char c = (is_digit c \<or> c = 46 \<or> c = 45)"

text \<open>Lines 104-107: the three \<^verbatim>\<open>replace\<close> calls and the \<^verbatim>\<open>re.sub\<close>.\<close>

definition clean_number_text :: "ustr \<Rightarrow> ustr" where
  "clean_number_text s0 =
     (let s = replace_char 160 32 s0;
          s = remove_char 32 s;
          s = replace_char 44 46 s;
          s = filter numeric_char s
      in s)"

text \<open>Lines 103-113, for the text \<open>s\<close> that \<^verbatim>\<open>str(x)\<close> returned.\<close>

definition to_number_text :: "ustr \<Rightarrow> pyfloat" where
  "to_number_text s0 =
     (let s = clean_number_text s0
      in if s \<in> set [[], [46], [45], [45, 46], [46, 45]] then Finite 0
         else case py_float_str s of
                Inr v \<Rightarrow> v
              | Inl e \<Rightarrow> Finite 0)"

text \<open>
  Lines 98-113. \<^verbatim>\<open>isinstance(x, (int, float))\<close> holds for \<^verbatim>\<open>bool\<close>, \<^verbatim>\<open>int\<close> and
  \<^verbatim>\<open>float\<close>; the cast \<^verbatim>\<open>float(x)\<close> of line 102 stands outside the \<^verbatim>\<open>try\<close>.
\<close>

definition to_number :: "cell \<Rightarrow> py_error + pyfloat" where
  "to_number x =
     (if pd_isna x then Inr (Finite 0)
      else case x of
             CBool b \<Rightarrow> py_float_int (if b then 1 else 0)
           | CInt n \<Rightarrow> py_float_int n
           | CFloat f \<Rightarrow> Inr f
           | CStr s \<Rightarrow> Inr (to_number_text s)
           | CObj s \<Rightarrow> Inr (to_number_text s)
           | _ \<Rightarrow> Inr (Finite 0))"

section \<open>SchemaMapper: \<^verbatim>\<open>_clean_col\<close> and \<^verbatim>\<open>auto_map_columns\<close> (app.py, lines 50-96)\<close>

text \<open>
  The field names of \<^verbatim>\<open>REQUIRED_FIELDS\<close>, which are the keys of \<^verbatim>\<open>ALIASES\<close> in the same
  order. The source writes them in Cyrillic; here they are code points, named in Latin
  transliteration:
  \<^item> \<open>F_account\<close>: \<^verbatim>\<open>Lichnyy schet\<close>, aliases \<^verbatim>\<open>lichnyy schet, litsevoy schet, l/s, ls, account, schet\<close>;
  \<^item> \<open>F_fio\<close>: \<^verbatim>\<open>FIO\<close>, aliases \<^verbatim>\<open>fio, f.i.o, familiya imya otchestvo, name, familiya\<close>;
  \<^item> \<open>F_address\<close>: \<^verbatim>\<open>Adres\<close>, aliases \<^verbatim>\<open>adres, address, mesto prozhivaniya, kvartira, dom\<close>;
  \<^item> \<open>F_last_payment\<close>: \<^verbatim>\<open>Period posledney oplaty\<close>, aliases \<^verbatim>\<open>period posledney oplaty, poslednyaya oplata, data posledney oplaty, last payment\<close>;
  \<^item> \<open>F_accrued\<close>: \<^verbatim>\<open>Nachisleniya\<close>, aliases \<^verbatim>\<open>nachisleniya, accrual, nachisleno\<close>;
  \<^item> \<open>F_benefit\<close>: \<^verbatim>\<open>Summa lgot\<close>, aliases \<^verbatim>\<open>summa lgot, lgoty, benefit, skidka\<close>;
  \<^item> \<open>F_to_pay\<close>: \<^verbatim>\<open>Vystavleno k oplate\<close>, aliases \<^verbatim>\<open>vystavleno k oplate, k oplate, itogo k oplate, to pay, nachisleno k oplate\<close>;
  \<^item> \<open>F_debt\<close>: \<^verbatim>\<open>Summa dolga\<close>, aliases \<^verbatim>\<open>summa dolga, dolg, zadolzhennost, debt, arrears\<close>;
  \<^item> \<open>F_penalty\<close>: \<^verbatim>\<open>Penni\<close>, aliases \<^verbatim>\<open>penni, peni, penya, penalty, shtraf\<close>;
  \<^item> \<open>F_debt_date\<close>: \<^verbatim>\<open>Data dolga\<close>, aliases \<^verbatim>\<open>data dolga, data zadolzhennosti, debt date, data obrazovaniya dolga\<close>;
  \<^item> \<open>F_email\<close>: \<^verbatim>\<open>Email\<close>, aliases \<^verbatim>\<open>email, e-mail, elektronnaya pochta, pochta, mail\<close>.
\<close>

definition F_account :: ustr where
  "F_account =
     [1051, 1080, 1095, 1085, 1099, 1081, 32, 1089, 1095, 1077, 1090]"

definition F_fio :: ustr where
  "F_fio =
     [1060, 1048, 1054]"

definition F_address :: ustr where
  "F_address =
     [1040, 1076, 1088, 1077, 1089]"

definition F_last_payment :: ustr where
  "F_last_payment =
     [1055, 1077, 1088, 1080, 1086, 1076, 32, 1087, 1086, 1089, 1083, 1077, 1076, 1085,
     1077, 1081, 32, 1086, 1087, 1083, 1072, 1090, 1099]"

definition F_accrued :: ustr where
  "F_accrued =
     [1053, 1072, 1095, 1080, 1089, 1083, 1077, 1085, 1080, 1103]"

definition F_benefit :: ustr where
  "F_benefit =
     [1057, 1091, 1084, 1084, 1072, 32, 1083, 1100, 1075, 1086, 1090]"

definition F_to_pay :: ustr where
  "F_to_pay =
     [1042, 1099, 1089, 1090, 1072, 1074, 1083, 1077, 1085, 1086, 32, 1082, 32, 1086,
     1087, 1083, 1072, 1090, 1077]"

definition F_debt :: ustr where
  "F_debt =
     [1057, 1091, 1084, 1084, 1072, 32, 1076, 1086, 1083, 1075, 1072]"

definition F_penalty :: ustr where
  "F_penalty =
     [1055, 1077, 1085, 1085, 1080]"

definition F_debt_date :: ustr where
  "F_debt_date =
     [1044, 1072, 1090, 1072, 32, 1076, 1086, 1083, 1075, 1072]"

definition F_email :: ustr where
  "F_email =
     ascii ''Email''"

definition ALIASES :: "(ustr \<times> ustr list) list" where
  "ALIASES =
     [(F_account,
        [[1083, 1080, 1095, 1085, 1099, 1081, 32, 1089, 1095, 1077, 1090],
         [1083, 1080, 1094, 1077, 1074, 1086, 1081, 32, 1089, 1095, 1077, 1090],
         [1083, 47, 1089],
         [1083, 1089],
         ascii ''account'',
         [1089, 1095, 1077, 1090]]),
      (F_fio,
        [[1092, 1080, 1086],
         [1092, 46, 1080, 46, 1086],
         [1092, 1072, 1084, 1080, 1083, 1080, 1103, 32, 1080, 1084, 1103, 32, 1086,
          1090, 1095, 1077, 1089, 1090, 1074, 1086],
         ascii ''name'',
         [1092, 1072, 1084, 1080, 1083, 1080, 1103]]),
      (F_address,
        [[1072, 1076, 1088, 1077, 1089],
         ascii ''address'',
         [1084, 1077, 1089, 1090, 1086, 32, 1087, 1088, 1086, 1078, 1080, 1074, 1072,
          1085, 1080, 1103],
         [1082, 1074, 1072, 1088, 1090, 1080, 1088, 1072],
         [1076, 1086, 1084]]),
      (F_last_payment,
        [[1087, 1077, 1088, 1080, 1086, 1076, 32, 1087, 1086, 1089, 1083, 1077, 1076,
          1085, 1077, 1081, 32, 1086, 1087, 1083, 1072, 1090, 1099],
         [1087, 1086, 1089, 1083, 1077, 1076, 1085, 1103, 1103, 32, 1086, 1087, 1083,
          1072, 1090, 1072],
         [1076, 1072, 1090, 1072, 32, 1087, 1086, 1089, 1083, 1077, 1076, 1085, 1077,
          1081, 32, 1086, 1087, 1083, 1072, 1090, 1099],
         ascii ''last payment'']),
      (F_accrued,
        [[1085, 1072, 1095, 1080, 1089, 1083, 1077, 1085, 1080, 1103],
         ascii ''accrual'',
         [1085, 1072, 1095, 1080, 1089, 1083, 1077, 1085, 1086]]),
      (F_benefit,
        [[1089, 1091, 1084, 1084, 1072, 32, 1083, 1100, 1075, 1086, 1090],
         [1083, 1100, 1075, 1086, 1090, 1099],
         ascii ''benefit'',
         [1089, 1082, 1080, 1076, 1082, 1072]]),
      (F_to_pay,
        [[1074, 1099, 1089, 1090, 1072, 1074, 1083, 1077, 1085, 1086, 32, 1082, 32,
          1086, 1087, 1083, 1072, 1090, 1077],
         [1082, 32, 1086, 1087, 1083, 1072, 1090, 1077],
         [1080, 1090, 1086, 1075, 1086, 32, 1082, 32, 1086, 1087, 1083, 1072, 1090,
          1077],
         ascii ''to pay'',
         [1085, 1072, 1095, 1080, 1089, 1083, 1077, 1085, 1086, 32, 1082, 32, 1086,
          1087, 1083, 1072, 1090, 1077]]),
      (F_debt,
        [[1089, 1091, 1084, 1084, 1072, 32, 1076, 1086, 1083, 1075, 1072],
         [1076, 1086, 1083, 1075],
         [1079, 1072, 1076, 1086, 1083, 1078, 1077, 1085, 1085, 1086, 1089, 1090, 1100],
         ascii ''debt'',
         ascii ''arrears'']),
      (F_penalty,
        [[1087, 1077, 1085, 1085, 1080],
         [1087, 1077, 1085, 1080],
         [1087, 1077, 1085, 1103],
         ascii ''penalty'',
         [1096, 1090, 1088, 1072, 1092]]),
      (F_debt_date,
        [[1076, 1072, 1090, 1072, 32, 1076, 1086, 1083, 1075, 1072],
         [1076, 1072, 1090, 1072, 32, 1079, 1072, 1076, 1086, 1083, 1078, 1077, 1085,
          1085, 1086, 1089, 1090, 1080],
         ascii ''debt date'',
         [1076, 1072, 1090, 1072, 32, 1086, 1073, 1088, 1072, 1079, 1086, 1074, 1072,
          1085, 1080, 1103, 32, 1076, 1086, 1083, 1075, 1072]]),
      (F_email,
        [ascii ''email'',
         ascii ''e-mail'',
         [1101, 1083, 1077, 1082, 1090, 1088, 1086, 1085, 1085, 1072, 1103, 32, 1087,
          1086, 1095, 1090, 1072],
         [1087, 1086, 1095, 1090, 1072],
         ascii ''mail''])]"

text \<open>
  \<^verbatim>\<open>str.isspace\<close>: the characters \<^verbatim>\<open>strip()\<close> removes and \<^verbatim>\<open>\s\<close> matches in a
  \<^verbatim>\<open>str\<close> pattern.
\<close>

definition is_space :: "nat \<Rightarrow> bool" where
  "is_space c =
     ((9 \<le> c \<and> c \<le> 13) \<or> (28 \<le> c \<and> c \<le> 32) \<or> c = 133 \<or> c = 160 \<or> c = 5760
      \<or> (8192 \<le> c \<and> c \<le> 8202) \<or> c = 8232 \<or> c = 8233 \<or> c = 8239 \<or> c = 8287
      \<or> c = 12288)"

definition strip :: "ustr \<Rightarrow> ustr" where
  "strip s = rev (dropWhile is_space (rev (dropWhile is_space s)))"

text \<open>The character class \<^verbatim>\<open>[\s\._\-]\<close> of line 80.\<close>

definition sep_char :: "nat \<Rightarrow> bool" where
  "sep_char c = (is_space c \<or> c = 46 \<or> c = 95 \<or> c = 45)"

text \<open>\<^verbatim>\<open>re.sub(r"[\s\._\-]+", " ", s)\<close>: every maximal run of separators becomes one blank.\<close>

function collapse_seps :: "ustr \<Rightarrow> ustr" where
  "collapse_seps [] = []"
| "collapse_seps (c # cs) =
     (if sep_char c then 32 # collapse_seps (dropWhile sep_char cs)
      else c # collapse_seps cs)"
  by pat_completeness auto
termination
  by (relation "measure length") (auto simp: le_imp_less_Suc length_dropWhile_le)

text \<open>
  Lines 78-81. \<^verbatim>\<open>str.lower()\<close> is Unicode's full lower-casing, which is not spelled out
  here: it is the parameter \<open>lower\<close>. The column labels are taken to be strings, so
  \<^verbatim>\<open>str(s)\<close> is \<open>s\<close>.
\<close>

definition clean_col :: "(ustr \<Rightarrow> ustr) \<Rightarrow> ustr \<Rightarrow> ustr" where
  "clean_col lower s = collapse_seps (lower (strip s))"

text \<open>\<^verbatim>\<open>a in b\<close> for two strings: \<open>a\<close> occurs in \<open>b\<close> as a contiguous piece.\<close>

fun str_contains :: "ustr \<Rightarrow> ustr \<Rightarrow> bool" where
  "str_contains a [] = (a = [])"
| "str_contains a (c # cs) = (prefix a (c # cs) \<or> str_contains a cs)"

text \<open>
  A Python \<^verbatim>\<open>dict\<close> keeps its keys in insertion order; storing under a key that is
  present replaces the value and keeps the key's place.
\<close>

fun dict_set :: "('k \<times> 'v) list \<Rightarrow> 'k \<Rightarrow> 'v \<Rightarrow> ('k \<times> 'v) list" where
  "dict_set [] k v = [(k, v)]"
| "dict_set ((k', v') # d) k v =
     (if k' = k then (k, v) # d else (k', v') # dict_set d k v)"

text \<open>Line 84: \<^verbatim>\<open>cols_clean = {c: _clean_col(c) for c in df.columns}\<close>.\<close>

definition cols_clean :: "(ustr \<Rightarrow> ustr) \<Rightarrow> ustr list \<Rightarrow> (ustr \<times> ustr) list" where
  "cols_clean lower cols = foldl (\<lambda>d c. dict_set d c (clean_col lower c)) [] cols"

text \<open>The truth value of \<^verbatim>\<open>found\<close> in \<^verbatim>\<open>if found:\<close> (line 93): \<^verbatim>\<open>None\<close> and the
  empty string are false.\<close>

fun truthy :: "ustr option \<Rightarrow> bool" where
  "truthy None = False"
| "truthy (Some s) = (s \<noteq> [])"

text \<open>
  Lines 89-92, the loop over the variants: \<open>found\<close> becomes the column at the first
  variant whose cleaned form occurs in \<open>cc\<close>, and is left alone when there is none.
\<close>

fun scan_variants :: "(ustr \<Rightarrow> ustr) \<Rightarrow> ustr list \<Rightarrow> ustr \<Rightarrow> ustr \<Rightarrow> ustr option \<Rightarrow> ustr option" where
  "scan_variants lower [] col cc found = found"
| "scan_variants lower (v # vs) col cc found =
     (if str_contains (clean_col lower v) cc then Some col
      else scan_variants lower vs col cc found)"

text \<open>Lines 88-94, the loop over the columns, left at line 94 once \<open>found\<close> is true.\<close>

fun scan_columns :: "(ustr \<Rightarrow> ustr) \<Rightarrow> ustr list \<Rightarrow> (ustr \<times> ustr) list \<Rightarrow> ustr option \<Rightarrow> ustr option" where
  "scan_columns lower variants [] found = found"
| "scan_columns lower variants ((col, cc) # rest) found =
     (let found' = scan_variants lower variants col cc found
      in if truthy found' then found' else scan_columns lower variants rest found')"

text \<open>Lines 83-96. The result holds one entry for each field of \<open>ALIASES\<close>, in its order.\<close>

definition auto_map_columns :: "(ustr \<Rightarrow> ustr) \<Rightarrow> ustr list \<Rightarrow> (ustr \<times> ustr option) list" where
  "auto_map_columns lower columns =
     (let cc = cols_clean lower columns
      in foldl (\<lambda>result (field, variants).
                  dict_set result field (scan_columns lower variants cc None))
           [] ALIASES)"

section \<open>DebtSelector (app.py, lines 289-294)\<close>

text \<open>
  A \<^verbatim>\<open>DataFrame\<close>: the column labels in order, and the rows in order, each a mapping
  from label to cell. A label with no cell in a row reads as \<^verbatim>\<open>nan\<close>.
\<close>

type_synonym row = "ustr \<rightharpoonup> cell"

record frame =
  columns :: "ustr list"
  rows :: "row list"


definition debt_key :: ustr where
  "debt_key = ascii ''_debt''"



text \<open>\<^verbatim>\<open>Series.apply(to_number)\<close>: cell by cell, in order; the first exception ends it.\<close>

fun apply_to_number :: "cell list \<Rightarrow> py_error + pyfloat list" where
  "apply_to_number [] = Inr []"
| "apply_to_number (x # xs) =
     (case to_number x of
        Inl e \<Rightarrow> Inl e
      | Inr v \<Rightarrow> (case apply_to_number xs of
                    Inl e \<Rightarrow> Inl e
                  | Inr vs \<Rightarrow> Inr (v # vs)))"


text \<open>The \<^verbatim>\<open>float\<close> in a cell of the \<^verbatim>\<open>_debt\<close> column.\<close>

definition debt_of :: "row \<Rightarrow> pyfloat" where
  "debt_of r = (case r debt_key of Some (CFloat f) \<Rightarrow> f | _ \<Rightarrow> NaN)"



section \<open>Python built-ins the handler calls\<close>

text \<open>\<^verbatim>\<open>str(n)\<close> for an \<^verbatim>\<open>int\<close>.\<close>

function digits_of :: "nat \<Rightarrow> ustr" where
  "digits_of n = (if n < 10 then [48 + n] else digits_of (n div 10) @ [48 + n mod 10])"
  by pat_completeness auto
termination
  by (relation "measure id") auto

declare digits_of.simps [simp del]

definition py_str_int :: "int \<Rightarrow> ustr" where
  "py_str_int n = (if n < 0 then 45 # digits_of (nat (- n)) else digits_of (nat n))"

text \<open>
  A value a replacement field can reach: a string, or another object (what an attribute
  or an index of a string gives), named by a number.
\<close>

datatype pyval = VStr ustr | VObj nat

text \<open>
  The library behaviour that is not spelled out here is a parameter, gathered in one
  record:
  \<^item> \<open>float_str\<close> is \<^verbatim>\<open>str(x)\<close> for a float;
  \<^item> \<open>format_comma_2f\<close> is \<^verbatim>\<open>f"{x:,.2f}"\<close>;
  \<^item> \<open>date_dmy\<close> is \<^verbatim>\<open>d.strftime("%d.%m.%Y")\<close>, a date being its day number
    (\<^verbatim>\<open>date.toordinal()\<close>);
  \<^item> \<open>get_member\<close> follows the \<^verbatim>\<open>.name\<close> and \<^verbatim>\<open>[index]\<close> parts of a replacement
    field from a string;
  \<^item> \<open>convert\<close> applies a conversion (\<^verbatim>\<open>!r\<close>, \<^verbatim>\<open>!s\<close>, \<^verbatim>\<open>!a\<close>, or
    \<^verbatim>\<open>ValueError\<close>);
  \<^item> \<open>format_value\<close> is \<^verbatim>\<open>format(obj, spec)\<close>;
  \<^item> \<open>smtp_server\<close> is what the mail server does with the request sent for the row
    with the given number: \<open>None\<close> when it accepts, \<open>Some msg\<close> when the call raises an
    exception \<open>e\<close> with \<^verbatim>\<open>str(e) = msg\<close>;
  \<^item> \<open>ledger_fault\<close> is what the ledger's file does when the row with the given number
    is entered (\<^verbatim>\<open>read_csv\<close> and \<^verbatim>\<open>to_csv\<close>, lines 18 and 26): \<open>None\<close> when it is read
    and written, \<open>Some msg\<close> when reading or writing it raises an exception \<open>e\<close> with
    \<^verbatim>\<open>str(e) = msg\<close> (a file that is locked or cannot be parsed);
  \<^item> \<open>now_text\<close> is \<^verbatim>\<open>datetime.now().strftime("%d.%m.%Y %H:%M")\<close> while that row
    is processed.
\<close>

record smtp_request =
  implicit_tls :: bool
  host :: ustr
  port :: int
  starttls :: bool
  login :: "(ustr \<times> ustr) option"
  envelope_from :: ustr
  envelope_to :: ustr
  msg_subject :: ustr
  msg_body :: ustr

record outside =
  float_str :: "pyfloat \<Rightarrow> ustr"
  format_comma_2f :: "pyfloat \<Rightarrow> ustr"
  date_dmy :: "nat \<Rightarrow> ustr"
  get_member :: "ustr \<Rightarrow> ustr \<Rightarrow> py_error + pyval"
  convert :: "pyval \<Rightarrow> nat \<Rightarrow> py_error + pyval"
  format_value :: "pyval \<Rightarrow> ustr \<Rightarrow> py_error + ustr"
  smtp_server :: "nat \<Rightarrow> smtp_request \<Rightarrow> ustr option"
  ledger_fault :: "nat \<Rightarrow> ustr option"
  now_text :: "nat \<Rightarrow> ustr"

text \<open>\<^verbatim>\<open>str(x)\<close> for a cell.\<close>

fun py_str :: "outside \<Rightarrow> cell \<Rightarrow> ustr" where
  "py_str X CNone = ascii ''None''"
| "py_str X (CBool b) = (if b then ascii ''True'' else ascii ''False'')"
| "py_str X (CInt n) = py_str_int n"
| "py_str X (CFloat f) = float_str X f"
| "py_str X (CStr s) = s"
| "py_str X (CMissing s) = s"
| "py_str X (CObj s) = s"

subsection \<open>\<^verbatim>\<open>str.format\<close> with keyword arguments\<close>

text \<open>
  The format string is read as CPython reads it: literal text up to a brace, a doubled
  brace as one literal brace, and a replacement field
  \<^verbatim>\<open>{name[!conversion][:spec]}\<close>. A field is rendered as soon as it is read, so of two
  errors the one that stands first in the string is raised. Here the string is first cut
  into pieces, up to the first syntax error, and the pieces are then rendered in order;
  the syntax error is raised when all pieces before it rendered.
\<close>

datatype piece = Literal ustr | Replacement ustr "nat option" ustr

text \<open>
  The name of a field: up to \<^verbatim>\<open>}\<close>, \<^verbatim>\<open>:\<close> or \<^verbatim>\<open>!\<close>, with everything between
  \<^verbatim>\<open>[\<close> and the next \<^verbatim>\<open>]\<close> skipped over. The result is the name, the character
  that ended it, and the text after that character.
\<close>

function field_name_end :: "ustr \<Rightarrow> ustr \<Rightarrow> py_error + (ustr \<times> nat \<times> ustr)" where
  "field_name_end acc [] = Inl (ValueError (ascii ''expected } before end of string''))"
| "field_name_end acc (c # cs) =
     (if c = 123 then Inl (ValueError (ascii ''unexpected { in field name''))
      else if c = 91 then
        field_name_end (acc @ c # takeWhile (\<lambda>x. x \<noteq> 93) cs) (dropWhile (\<lambda>x. x \<noteq> 93) cs)
      else if c = 125 \<or> c = 58 \<or> c = 33 then Inr (acc, c, cs)
      else field_name_end (acc @ [c]) cs)"
  by pat_completeness auto
termination
  by (relation "measure (\<lambda>(acc, s). length s)") (auto simp: le_imp_less_Suc length_dropWhile_le)

text \<open>The format spec: up to the brace that closes the field, nested braces counted.\<close>

fun spec_end :: "nat \<Rightarrow> ustr \<Rightarrow> ustr \<Rightarrow> py_error + (ustr \<times> ustr)" where
  "spec_end count acc [] = Inl (ValueError (ascii ''unmatched { in format spec''))"
| "spec_end count acc (c # cs) =
     (if c = 123 then spec_end (Suc count) (acc @ [c]) cs
      else if c = 125 then
        (if count = 1 then Inr (acc, cs) else spec_end (count - 1) (acc @ [c]) cs)
      else spec_end count (acc @ [c]) cs)"

definition parse_spec :: "ustr \<Rightarrow> nat option \<Rightarrow> ustr \<Rightarrow> py_error + (piece \<times> ustr)" where
  "parse_spec name conv s =
     (case spec_end 1 [] s of
        Inl e \<Rightarrow> Inl e
      | Inr (spec, rest) \<Rightarrow> Inr (Replacement name conv spec, rest))"

text \<open>One replacement field, read from just after its opening brace.\<close>

definition parse_field :: "ustr \<Rightarrow> py_error + (piece \<times> ustr)" where
  "parse_field s =
     (case field_name_end [] s of
        Inl e \<Rightarrow> Inl e
      | Inr (name, c, rest) \<Rightarrow>
          if c = 125 then Inr (Replacement name None [], rest)
          else if c = 33 then
            (case rest of
               [] \<Rightarrow> Inl (ValueError (ascii ''end of string while looking for conversion specifier''))
             | conv # rest1 \<Rightarrow>
                 (case rest1 of
                    [] \<Rightarrow> parse_spec name (Some conv) []
                  | c2 # rest2 \<Rightarrow>
                      if c2 = 125 then Inr (Replacement name (Some conv) [], rest2)
                      else if c2 \<noteq> 58 then
                        Inl (ValueError (ascii ''expected : after conversion specifier''))
                      else parse_spec name (Some conv) rest2))
          else parse_spec name None rest)"

definition not_brace :: "nat \<Rightarrow> bool" where
  "not_brace c = (c \<noteq> 123 \<and> c \<noteq> 125)"

text \<open>
  One step of the reader on a string that is not empty: the literal text, the field
  after it when there is one, and the text that is left.
\<close>

definition markup_next :: "ustr \<Rightarrow> py_error + (ustr \<times> piece option \<times> ustr)" where
  "markup_next s =
     (let pre = takeWhile not_brace s
      in case dropWhile not_brace s of
           [] \<Rightarrow> Inr (pre, None, [])
         | c # r \<Rightarrow>
             if c = 125 \<and> (r = [] \<or> hd r \<noteq> 125) then
               Inl (ValueError (ascii ''Single } encountered in format string''))
             else if r = [] then
               Inl (ValueError (ascii ''Single { encountered in format string''))
             else if hd r = c then Inr (pre @ [c], None, tl r)
             else (case parse_field r of
                     Inl e \<Rightarrow> Inl e
                   | Inr (f, rest) \<Rightarrow> Inr (pre, Some f, rest)))"

lemma field_name_end_shorter:
  "field_name_end acc s = Inr (name, t, rest) \<Longrightarrow> length rest < length s"
proof (induction acc s rule: field_name_end.induct)
  case (1 acc)
  then show ?case by simp
next
  case (2 acc c cs)
  show ?case
  proof (cases "c = 123")
    case True
    with "2.prems" show ?thesis by simp
  next
    case n123: False
    show ?thesis
    proof (cases "c = 91")
      case True
      with n123 "2.prems" have
        "field_name_end (acc @ c # takeWhile (\<lambda>x. x \<noteq> 93) cs) (dropWhile (\<lambda>x. x \<noteq> 93) cs)
           = Inr (name, t, rest)"
        by simp
      with "2.IH"(1) n123 True have "length rest < length (dropWhile (\<lambda>x. x \<noteq> 93) cs)"
        by blast
      also have "\<dots> \<le> length cs"
        by (rule length_dropWhile_le)
      finally show ?thesis by simp
    next
      case n91: False
      show ?thesis
      proof (cases "c = 125 \<or> c = 58 \<or> c = 33")
        case True
        with n123 n91 "2.prems" have "rest = cs" by auto
        then show ?thesis by simp
      next
        case False
        with n123 n91 "2.prems" have "field_name_end (acc @ [c]) cs = Inr (name, t, rest)"
          by simp
        with "2.IH"(2) n123 n91 False have "length rest < length cs"
          by blast
        then show ?thesis by simp
      qed
    qed
  qed
qed

lemma spec_end_shorter:
  "spec_end count acc s = Inr (spec, rest) \<Longrightarrow> length rest < length s"
proof (induction count acc s rule: spec_end.induct)
  case (1 count acc)
  then show ?case by simp
next
  case (2 count acc c cs)
  show ?case
  proof (cases "c = 123")
    case True
    with "2.prems" "2.IH"(1) have "length rest < length cs" by simp
    then show ?thesis by simp
  next
    case n123: False
    show ?thesis
    proof (cases "c = 125")
      case True
      show ?thesis
      proof (cases "count = 1")
        case True
        with \<open>c = 125\<close> n123 "2.prems" have "rest = cs" by simp
        then show ?thesis by simp
      next
        case False
        with \<open>c = 125\<close> n123 "2.prems" "2.IH"(2) have "length rest < length cs" by simp
        then show ?thesis by simp
      qed
    next
      case False
      with n123 "2.prems" "2.IH"(3) have "length rest < length cs" by simp
      then show ?thesis by simp
    qed
  qed
qed

lemma parse_spec_shorter:
  "parse_spec name conv s = Inr (f, rest) \<Longrightarrow> length rest < length s"
  unfolding parse_spec_def
  by (cases "spec_end 1 [] s") (auto dest: spec_end_shorter)

lemma parse_field_shorter:
  assumes "parse_field s = Inr (f, rest)"
  shows "length rest < length s"
proof (cases "field_name_end [] s")
  case (Inl e)
  with assms show ?thesis by (simp add: parse_field_def)
next
  case (Inr triple)
  obtain name c r where triple: "triple = (name, c, r)"
    by (cases triple)
  have r: "length r < length s"
    using Inr triple by (auto dest: field_name_end_shorter)
  have pf: "parse_field s =
      (if c = 125 then Inr (Replacement name None [], r)
       else if c = 33 then
         (case r of
            [] \<Rightarrow> Inl (ValueError (ascii ''end of string while looking for conversion specifier''))
          | conv # rest1 \<Rightarrow>
              (case rest1 of
                 [] \<Rightarrow> parse_spec name (Some conv) []
               | c2 # rest2 \<Rightarrow>
                   if c2 = 125 then Inr (Replacement name (Some conv) [], rest2)
                   else if c2 \<noteq> 58 then
                     Inl (ValueError (ascii ''expected : after conversion specifier''))
                   else parse_spec name (Some conv) rest2))
       else parse_spec name None r)"
    using Inr triple by (simp add: parse_field_def)
  show ?thesis
  proof (cases "c = 125")
    case True
    with pf assms r show ?thesis by simp
  next
    case n125: False
    show ?thesis
    proof (cases "c = 33")
      case False
      with n125 pf assms have "parse_spec name None r = Inr (f, rest)" by simp
      from parse_spec_shorter [OF this] r show ?thesis by simp
    next
      case True
      show ?thesis
      proof (cases r)
        case Nil
        with True n125 pf assms show ?thesis by simp
      next
        case (Cons conv rest1)
        show ?thesis
        proof (cases rest1)
          case Nil
          with Cons True n125 pf assms have "parse_spec name (Some conv) [] = Inr (f, rest)"
            by simp
          from parse_spec_shorter [OF this] show ?thesis by simp
        next
          case (Cons c2 rest2)
          note r2 = \<open>r = conv # rest1\<close> Cons
          show ?thesis
          proof (cases "c2 = 125")
            case True
            with r2 \<open>c = 33\<close> n125 pf assms have "rest = rest2" by simp
            with r r2 show ?thesis by simp
          next
            case False
            with r2 \<open>c = 33\<close> n125 pf assms have "parse_spec name (Some conv) rest2 = Inr (f, rest)"
              by (simp split: if_splits)
            from parse_spec_shorter [OF this] r r2 show ?thesis by simp
          qed
        qed
      qed
    qed
  qed
qed

lemma markup_next_shorter:
  assumes "markup_next s = Inr (lit, fo, rest)" and "s \<noteq> []"
  shows "length rest < length s"
proof (cases "dropWhile not_brace s")
  case Nil
  with assms show ?thesis by (simp add: markup_next_def)
next
  case (Cons c r)
  have le: "Suc (length r) \<le> length s"
    using length_dropWhile_le [of not_brace s] Cons by simp
  have mn: "markup_next s =
      (if c = 125 \<and> (r = [] \<or> hd r \<noteq> 125) then
         Inl (ValueError (ascii ''Single } encountered in format string''))
       else if r = [] then
         Inl (ValueError (ascii ''Single { encountered in format string''))
       else if hd r = c then Inr (takeWhile not_brace s @ [c], None, tl r)
       else (case parse_field r of
               Inl e \<Rightarrow> Inl e
             | Inr (f, rest) \<Rightarrow> Inr (takeWhile not_brace s, Some f, rest)))"
    using Cons by (simp add: markup_next_def)
  show ?thesis
  proof (cases "c = 125 \<and> (r = [] \<or> hd r \<noteq> 125)")
    case True
    with mn assms show ?thesis by simp
  next
    case a: False
    show ?thesis
    proof (cases "r = []")
      case True
      with a mn assms show ?thesis by simp
    next
      case b: False
      show ?thesis
      proof (cases "hd r = c")
        case True
        with a b mn assms have "rest = tl r" by simp
        with b le show ?thesis by (cases r) simp_all
      next
        case False
        with a b mn assms obtain f where "parse_field r = Inr (f, rest)"
          by (cases "parse_field r") (auto split: if_splits)
        from parse_field_shorter [OF this] le show ?thesis by simp
      qed
    qed
  qed
qed

text \<open>The whole string in pieces, and the syntax error that ended the reading, if any.\<close>

function pieces :: "ustr \<Rightarrow> piece list \<times> py_error option" where
  "pieces s =
     (if s = [] then ([], None)
      else case markup_next s of
             Inl e \<Rightarrow> ([], Some e)
           | Inr (lit, fo, rest) \<Rightarrow>
               (let (ps, err) = pieces rest
                in (Literal lit # (case fo of None \<Rightarrow> [] | Some f \<Rightarrow> [f]) @ ps, err)))"
  by pat_completeness auto
termination
  by (relation "measure length") (auto dest: markup_next_shorter)

declare pieces.simps [simp del]

text \<open>
  The argument a field names: its name up to the first \<^verbatim>\<open>.\<close> or \<^verbatim>\<open>[\<close>. The call
  passes keyword arguments only, so an empty name and a number (an index into the
  positional arguments) raise \<^verbatim>\<open>IndexError\<close>, and a name that is no keyword raises
  \<^verbatim>\<open>KeyError\<close>. (A number is recognised by its ASCII digits.)
\<close>

definition arg_name :: "ustr \<Rightarrow> ustr" where
  "arg_name name = takeWhile (\<lambda>c. c \<noteq> 46 \<and> c \<noteq> 91) name"

definition accessors :: "ustr \<Rightarrow> ustr" where
  "accessors name = dropWhile (\<lambda>c. c \<noteq> 46 \<and> c \<noteq> 91) name"

text \<open>
  One field: the argument is looked up, then its members, then the conversion is
  applied, then a spec that holds a brace is itself formatted (\<open>expand\<close>), and the value
  is formatted with the spec. A string formatted with the empty spec is itself.
\<close>

definition render_field ::
  "(ustr \<Rightarrow> py_error + ustr) \<Rightarrow> outside \<Rightarrow> (ustr \<rightharpoonup> ustr) \<Rightarrow> ustr \<Rightarrow> nat option \<Rightarrow> ustr
     \<Rightarrow> py_error + ustr" where
  "render_field expand X kw name conv spec =
     (if arg_name name = [] \<or> list_all is_digit (arg_name name) then Inl IndexError
      else case kw (arg_name name) of
        None \<Rightarrow> Inl (KeyError (arg_name name))
      | Some v \<Rightarrow>
          (case (if accessors name = [] then Inr (VStr v) else get_member X v (accessors name)) of
             Inl e \<Rightarrow> Inl e
           | Inr obj \<Rightarrow>
               (case (case conv of None \<Rightarrow> Inr obj | Some c \<Rightarrow> convert X obj c) of
                  Inl e \<Rightarrow> Inl e
                | Inr obj' \<Rightarrow>
                    (case (if 123 \<in> set spec then expand spec else Inr spec) of
                       Inl e \<Rightarrow> Inl e
                     | Inr spec' \<Rightarrow>
                         (case obj' of
                            VStr t \<Rightarrow> if spec' = [] then Inr t else format_value X obj' spec'
                          | VObj n \<Rightarrow> format_value X obj' spec')))))"

fun render_pieces ::
  "(ustr \<Rightarrow> py_error + ustr) \<Rightarrow> outside \<Rightarrow> (ustr \<rightharpoonup> ustr) \<Rightarrow> piece list \<Rightarrow> py_error + ustr" where
  "render_pieces expand X kw [] = Inr []"
| "render_pieces expand X kw (Literal t # ps) =
     (case render_pieces expand X kw ps of
        Inl e \<Rightarrow> Inl e
      | Inr out \<Rightarrow> Inr (t @ out))"
| "render_pieces expand X kw (Replacement name conv spec # ps) =
     (case render_field expand X kw name conv spec of
        Inl e \<Rightarrow> Inl e
      | Inr t \<Rightarrow>
          (case render_pieces expand X kw ps of
             Inl e \<Rightarrow> Inl e
           | Inr out \<Rightarrow> Inr (t @ out)))"

text \<open>
  Formatting at a nesting depth: CPython starts at depth \<open>2\<close>, formats the spec of a field
  one level lower, and raises at depth \<open>0\<close>.
\<close>

primrec format_at :: "outside \<Rightarrow> (ustr \<rightharpoonup> ustr) \<Rightarrow> nat \<Rightarrow> ustr \<Rightarrow> py_error + ustr" where
  "format_at X kw 0 = (\<lambda>s. Inl (ValueError (ascii ''Max string recursion exceeded'')))"
| "format_at X kw (Suc d) =
     (\<lambda>s. case pieces s of
             (ps, err) \<Rightarrow>
               (case render_pieces (format_at X kw d) X kw ps of
                  Inl e \<Rightarrow> Inl e
                | Inr out \<Rightarrow> (case err of Some e \<Rightarrow> Inl e | None \<Rightarrow> Inr out)))"

definition py_format :: "outside \<Rightarrow> ustr \<Rightarrow> (ustr \<rightharpoonup> ustr) \<Rightarrow> py_error + ustr" where
  "py_format X s kw = format_at X kw 2 s"

section \<open>MonitoringLedger (app.py, lines 14-39)\<close>

text \<open>
  One row of the ledger, with the six columns of lines 21-22. The file
  \<^verbatim>\<open>debtors_monitoring.csv\<close> is held as the table that was last saved to it, or \<open>None\<close>
  while it does not exist; what \<^verbatim>\<open>to_csv\<close> writes and \<^verbatim>\<open>read_csv\<close> makes of
  it is not part of this model. The two functions below are the file read and written
  without an exception; an exception of either, while the loop enters a row, is the
  parameter \<open>ledger_fault\<close>, and a write that raises is taken to leave the file as it
  was.
\<close>

record monitoring_entry =
  contact_date :: ustr
  entry_fio :: ustr
  entry_debt :: pyfloat
  contact_way :: ustr
  contact_status :: ustr
  entry_comment :: ustr

text \<open>
  What the handler acts on: the ledger file, the calls of \<^verbatim>\<open>send_email_smtp\<close> made so
  far, the pauses made so far, and the progress reports (row number, n_rows, successes,
  failures).
\<close>

record world =
  ledger_file :: "monitoring_entry list option"
  sent :: "smtp_request list"
  slept :: "pyfloat list"
  progress :: "(nat \<times> nat \<times> nat \<times> nat) list"

definition load_monitoring_data :: "world \<Rightarrow> monitoring_entry list" where
  "load_monitoring_data w = (case ledger_file w of Some df \<Rightarrow> df | None \<Rightarrow> [])"

definition save_monitoring_data :: "monitoring_entry list \<Rightarrow> world \<Rightarrow> world" where
  "save_monitoring_data df w = w\<lparr>ledger_file := Some df\<rparr>"

text \<open>Lines 28-39; \<open>stamp\<close> is the formatted \<^verbatim>\<open>datetime.now()\<close> of line 31.\<close>

definition add_to_monitoring ::
  "ustr \<Rightarrow> ustr \<Rightarrow> pyfloat \<Rightarrow> ustr \<Rightarrow> ustr \<Rightarrow> ustr \<Rightarrow> world \<Rightarrow> world" where
  "add_to_monitoring stamp fio debt way status comment w =
     (let df = load_monitoring_data w;
          new_entry = \<lparr>contact_date = stamp, entry_fio = fio, entry_debt = debt,
                       contact_way = way, contact_status = status, entry_comment = comment\<rparr>
      in save_monitoring_data (df @ [new_entry]) w)"

section \<open>MessageComposer and DispatchEngine (app.py, lines 187-209 and 351-498)\<close>

text \<open>
  The Cyrillic texts of the handler, as code points:
  \<^item> \<open>invalid_email_text\<close>: \<^verbatim>\<open>Nekorrektnyy Email adres\<close>;
  \<^item> \<open>dry_run_comment\<close>: \<^verbatim>\<open>Test (ne otpravleno)\<close>;
  \<^item> \<open>status_error\<close>: \<^verbatim>\<open>Oshibka\<close>;
  \<^item> \<open>status_auto_delivered\<close>: \<^verbatim>\<open>Dostavleno (avto)\<close>;
  \<^item> \<open>sent_to_prefix\<close>: \<^verbatim>\<open>Otpravleno na\<close>, with a blank after it.
\<close>

definition invalid_email_text :: ustr where
  "invalid_email_text =
     [1053, 1077, 1082, 1086, 1088, 1088, 1077, 1082, 1090, 1085, 1099, 1081, 32, 69,
     109, 97, 105, 108, 32, 1072, 1076, 1088, 1077, 1089]"

definition dry_run_comment :: ustr where
  "dry_run_comment =
     [1058, 1077, 1089, 1090, 32, 40, 1085, 1077, 32, 1086, 1090, 1087, 1088, 1072, 1074,
     1083, 1077, 1085, 1086, 41]"

definition status_error :: ustr where
  "status_error =
     [1054, 1096, 1080, 1073, 1082, 1072]"

definition status_auto_delivered :: ustr where
  "status_auto_delivered =
     [1044, 1086, 1089, 1090, 1072, 1074, 1083, 1077, 1085, 1086, 32, 40, 1072, 1074,
     1090, 1086, 41]"

definition sent_to_prefix :: ustr where
  "sent_to_prefix =
     [1054, 1090, 1087, 1088, 1072, 1074, 1083, 1077, 1085, 1086, 32, 1085, 1072, 32]"

datatype recipient_mode = PerRowAddress | SingleSharedAddress

text \<open>
  The settings of the form when the button is pressed. \<open>today\<close> is the date of line 305
  as a day number; the due date of line 306 is 31 days later.
\<close>

record send_env =
  mode :: recipient_mode
  common_email :: ustr
  email_col :: "ustr option"
  fio_col :: ustr
  dry_run :: bool
  smtp_host :: ustr
  smtp_port :: int
  smtp_user :: ustr
  smtp_password :: ustr
  use_tls :: bool
  from_addr :: ustr
  subject :: ustr
  template :: ustr
  sleep_time :: pyfloat
  today :: nat

definition due :: "send_env \<Rightarrow> nat" where
  "due env = today env + 31"

text \<open>Lines 351-355.\<close>

definition format_money :: "outside \<Rightarrow> pyfloat \<Rightarrow> ustr" where
  "format_money X x = replace_char 44 32 (format_comma_2f X x)"

text \<open>Lines 357-363.\<close>

definition make_body :: "outside \<Rightarrow> send_env \<Rightarrow> ustr \<Rightarrow> pyfloat \<Rightarrow> py_error + ustr" where
  "make_body X env fio debt =
     py_format X (template env)
       (map_of [(ascii ''FIO'', fio),
                (ascii ''DEBT'', format_money X debt),
                (ascii ''TODAY'', date_dmy X (today env)),
                (ascii ''DUE'', date_dmy X (due env))])"

text \<open>
  Lines 187-209: the request \<^verbatim>\<open>send_email_smtp\<close> makes. Port 465 is served by
  \<^verbatim>\<open>SMTP_SSL\<close>, every other port by \<^verbatim>\<open>SMTP\<close> with \<^verbatim>\<open>STARTTLS\<close> when asked for; the
  login happens when the user name is not empty.
\<close>

definition send_email_smtp ::
  "ustr \<Rightarrow> int \<Rightarrow> ustr \<Rightarrow> ustr \<Rightarrow> bool \<Rightarrow> ustr \<Rightarrow> ustr \<Rightarrow> ustr \<Rightarrow> ustr \<Rightarrow> smtp_request" where
  "send_email_smtp h p user password tls from_a to_a subj body =
     \<lparr>implicit_tls = (p = 465), host = h, port = p,
      starttls = (p \<noteq> 465 \<and> tls),
      login = (if user \<noteq> [] then Some (user, password) else None),
      envelope_from = from_a, envelope_to = to_a, msg_subject = subj, msg_body = body\<rparr>"

text \<open>One record of the outcome log (\<^verbatim>\<open>log_rows\<close>).\<close>

record outcome =
  o_fio :: ustr
  o_email :: ustr
  o_debt :: pyfloat
  o_status :: ustr
  o_comment :: ustr

definition status_ok :: ustr where
  "status_ok = ascii ''OK''"

definition status_dry_run :: ustr where
  "status_dry_run = ascii ''OK (dry-run)''"

definition contact_email :: ustr where
  "contact_email = ascii ''E-mail''"

text \<open>The variables of the loop: \<^verbatim>\<open>log_rows\<close>, \<^verbatim>\<open>ok\<close> and \<^verbatim>\<open>fail\<close>.\<close>

record loop_state =
  log_rows :: "outcome list"
  ok :: nat
  fail :: nat

text \<open>\<^verbatim>\<open>r.get(col, default)\<close>.\<close>

definition row_get :: "row \<Rightarrow> ustr \<Rightarrow> cell \<Rightarrow> cell" where
  "row_get r c d = (case r c of Some x \<Rightarrow> x | None \<Rightarrow> d)"

text \<open>Line 415.\<close>

definition row_fio :: "outside \<Rightarrow> send_env \<Rightarrow> row \<Rightarrow> ustr" where
  "row_fio X env r = strip (py_str X (row_get r (fio_col env) (CStr [])))"

text \<open>Line 418: the float line 292 stored in the row, \<open>0.0\<close> when the row has none.\<close>

definition row_debt :: "row \<Rightarrow> pyfloat" where
  "row_debt r = (case r debt_key of None \<Rightarrow> Finite 0 | Some c \<Rightarrow> debt_of (r))"

text \<open>Lines 421-425.\<close>

definition row_addr :: "outside \<Rightarrow> send_env \<Rightarrow> row \<Rightarrow> ustr" where
  "row_addr X env r =
     (if mode env = PerRowAddress then
        (if truthy (email_col env)
         then strip (py_str X (row_get r (the (email_col env)) (CStr [])))
         else [])
      else common_email env)"

definition failure :: "ustr \<Rightarrow> ustr \<Rightarrow> pyfloat \<Rightarrow> ustr \<Rightarrow> loop_state \<Rightarrow> loop_state" where
  "failure fio to_addr debt msg st =
     st\<lparr>fail := fail st + 1,
        log_rows := log_rows st @
          [\<lparr>o_fio = fio, o_email = to_addr, o_debt = debt, o_status = status_error,
            o_comment = msg\<rparr>]\<rparr>"

definition success :: "ustr \<Rightarrow> ustr \<Rightarrow> pyfloat \<Rightarrow> ustr \<Rightarrow> ustr \<Rightarrow> loop_state \<Rightarrow> loop_state" where
  "success fio to_addr debt status comment st =
     st\<lparr>ok := ok st + 1,
        log_rows := log_rows st @
          [\<lparr>o_fio = fio, o_email = to_addr, o_debt = debt, o_status = status,
            o_comment = comment\<rparr>]\<rparr>"

text \<open>
  Lines 431-492, the \<^verbatim>\<open>try\<close> statement for one row, with the body of the letter
  already made. The one \<^verbatim>\<open>except\<close> clause of line 482 catches the exception of the
  address test, of \<^verbatim>\<open>send_email_smtp\<close> and of \<^verbatim>\<open>add_to_monitoring\<close> alike.
\<close>

definition try_send ::
  "outside \<Rightarrow> send_env \<Rightarrow> nat \<Rightarrow> ustr \<Rightarrow> ustr \<Rightarrow> pyfloat \<Rightarrow> ustr \<Rightarrow> world \<times> loop_state
     \<Rightarrow> world \<times> loop_state" where
  "try_send X env idx fio to_addr debt body ws =
     (case ws of (w, st) \<Rightarrow>
        if 64 \<notin> set to_addr then (w, failure fio to_addr debt invalid_email_text st)
        else if dry_run env then
          (w, success fio to_addr debt status_dry_run dry_run_comment st)
        else
          (let request = send_email_smtp (smtp_host env) (smtp_port env) (smtp_user env)
                           (smtp_password env) (use_tls env) (from_addr env) to_addr
                           (subject env) body;
               w1 = w\<lparr>sent := sent w @ [request]\<rparr>
           in case smtp_server X idx request of
                Some msg \<Rightarrow> (w1, failure fio to_addr debt msg st)
              | None \<Rightarrow>
                  (case ledger_fault X idx of
                     Some msg \<Rightarrow> (w1, failure fio to_addr debt msg st)
                   | None \<Rightarrow>
                       (let w2 = add_to_monitoring (now_text X idx) fio debt contact_email
                                   status_auto_delivered (sent_to_prefix @ to_addr) w1;
                            w3 = w2\<lparr>slept := slept w2 @ [sleep_time env]\<rparr>
                        in (w3, success fio to_addr debt status_ok [] st)))))"

text \<open>
  Lines 410-496, one turn of the loop. The body is made at line 428, before the
  \<^verbatim>\<open>try\<close>: an exception there leaves the loop.
\<close>

definition process_row ::
  "outside \<Rightarrow> send_env \<Rightarrow> nat \<Rightarrow> nat \<Rightarrow> row \<Rightarrow> world \<times> loop_state
     \<Rightarrow> world \<times> (py_error + loop_state)" where
  "process_row X env n_rows idx r ws =
     (let fio = row_fio X env r;
          debt = row_debt r;
          to_addr = row_addr X env r
      in case make_body X env fio debt of
           Inl e \<Rightarrow> (fst ws, Inl e)
         | Inr body \<Rightarrow>
             (case try_send X env idx fio to_addr debt body ws of
                (w, st) \<Rightarrow>
                  (w\<lparr>progress := progress w @ [(idx, n_rows, ok st, fail st)]\<rparr>, Inr st)))"

fun dispatch_loop ::
  "outside \<Rightarrow> send_env \<Rightarrow> nat \<Rightarrow> nat \<Rightarrow> row list \<Rightarrow> world \<times> loop_state
     \<Rightarrow> world \<times> (py_error + loop_state)" where
  "dispatch_loop X env n_rows idx [] ws = (fst ws, Inr (snd ws))"
| "dispatch_loop X env n_rows idx (r # rs) ws =
     (case process_row X env n_rows idx r ws of
        (w, Inl e) \<Rightarrow> (w, Inl e)
      | (w, Inr st) \<Rightarrow> dispatch_loop X env n_rows (Suc idx) rs (w, st))"

text \<open>Lines 380-394: the checks before the loop; \<^verbatim>\<open>st.stop()\<close> ends the run.\<close>

datatype stop_reason = NoDebtors | MissingConfig "ustr list"

definition missing_config :: "send_env \<Rightarrow> ustr list" where
  "missing_config env =
     (if smtp_host env = [] then [ascii ''SMTP host''] else [])
     @ (if from_addr env = [] then [ascii ''From''] else [])
     @ (if smtp_user env \<noteq> [] \<and> smtp_password env = [] then [ascii ''SMTP password''] else [])"

definition preflight :: "send_env \<Rightarrow> row list \<Rightarrow> stop_reason option" where
  "preflight env debtors =
     (if length debtors = 0 then Some NoDebtors
      else if \<not> dry_run env \<and> missing_config env \<noteq> [] then
        Some (MissingConfig (missing_config env))
      else None)"

text \<open>
  Lines 380-498, the handler of the button: stopped before the loop, left by an
  exception, or finished with the log and the two counts.
\<close>

datatype run_result =
    is_Stopped: Stopped stop_reason
  | is_Raised: Raised py_error
  | is_Finished: Finished "outcome list" nat nat

definition send_clicked :: "outside \<Rightarrow> send_env \<Rightarrow> row list \<Rightarrow> world \<Rightarrow> world \<times> run_result" where
  "send_clicked X env debtors w =
     (case preflight env debtors of
        Some reason \<Rightarrow> (w, Stopped reason)
      | None \<Rightarrow>
          (case dispatch_loop X env (length debtors) 1 debtors
                  (w, \<lparr>log_rows = [], ok = 0, fail = 0\<rparr>) of
             (w', Inl e) \<Rightarrow> (w', Raised e)
           | (w', Inr st) \<Rightarrow> (w', Finished (log_rows st) (ok st) (fail st))))"

text \<open>
  Lines 366-373, the preview, which every run of the script makes before it comes to the
  button: the letter of the first debtor, or a notice when there is none.
\<close>

definition preview :: "outside \<Rightarrow> send_env \<Rightarrow> row list \<Rightarrow> py_error + ustr option" where
  "preview X env debtors =
     (case debtors of
        [] \<Rightarrow> Inr None
      | r # rs \<Rightarrow>
          (case r debt_key of
             None \<Rightarrow> Inl (KeyError debt_key)
           | Some c \<Rightarrow>
               (case make_body X env (row_fio X env r) (debt_of r) of
                  Inl e \<Rightarrow> Inl e
                | Inr body \<Rightarrow> Inr (Some body))))"

text \<open>
  Lines 366-498 in a run of the script with the button pressed: an exception of the
  preview ends the run before the handler is reached.
\<close>

definition run_page :: "outside \<Rightarrow> send_env \<Rightarrow> row list \<Rightarrow> world \<Rightarrow> world \<times> run_result" where
  "run_page X env debtors w =
     (case preview X env debtors of
        Inl e \<Rightarrow> (w, Raised e)
      | Inr shown \<Rightarrow> send_clicked X env debtors w)"


text \<open>
  A lower-casing that agrees with \<^verbatim>\<open>str.lower()\<close> on Basic Latin and on the Cyrillic
  letters U+0400 to U+042F, and leaves every other character alone. It instantiates the
  parameter \<open>lower\<close> where a concrete table is evaluated.
\<close>

definition lower_basic :: "ustr \<Rightarrow> ustr" where
  "lower_basic s =
     map (\<lambda>c. if (65 \<le> c \<and> c \<le> 90) \<or> (1040 \<le> c \<and> c \<le> 1071) then c + 32
               else if 1024 \<le> c \<and> c \<le> 1039 then c + 80 else c) s"

section \<open>The loop, row by row\<close>

text \<open>
  The notions below name what the loop of lines 410-496 computes for one row, so that
  the theorems can say what a whole run records. They are read off the loop: each is the
  value of an expression of the loop body.
\<close>

text \<open>The body composed for a row (line 428) and the request line 447 makes for it.\<close>

definition row_body :: "outside \<Rightarrow> send_env \<Rightarrow> row \<Rightarrow> py_error + ustr" where
  "row_body X env r = make_body X env (row_fio X env r) (row_debt r)"

definition row_request :: "outside \<Rightarrow> send_env \<Rightarrow> row \<Rightarrow> smtp_request" where
  "row_request X env r =
     send_email_smtp (smtp_host env) (smtp_port env) (smtp_user env) (smtp_password env)
       (use_tls env) (from_addr env) (row_addr X env r) (subject env) (projr (row_body X env r))"

text \<open>
  The test of line 433 (\<^verbatim>\<open>"@" in to_addr\<close>; \<open>64\<close> is the code point of \<^verbatim>\<open>@\<close>), a row for
  which \<^verbatim>\<open>send_email_smtp\<close> is called, a row for which that call returns, and a row for
  which \<^verbatim>\<open>add_to_monitoring\<close> returns as well.
\<close>

definition valid_addr :: "outside \<Rightarrow> send_env \<Rightarrow> row \<Rightarrow> bool" where
  "valid_addr X env r = (64 \<in> set (row_addr X env r))"

definition attempted :: "outside \<Rightarrow> send_env \<Rightarrow> row \<Rightarrow> bool" where
  "attempted X env r = (valid_addr X env r \<and> \<not> dry_run env)"

definition delivered :: "outside \<Rightarrow> send_env \<Rightarrow> nat \<times> row \<Rightarrow> bool" where
  "delivered X env ir =
     (attempted X env (snd ir) \<and> smtp_server X (fst ir) (row_request X env (snd ir)) = None)"

definition entered :: "outside \<Rightarrow> send_env \<Rightarrow> nat \<times> row \<Rightarrow> bool" where
  "entered X env ir = (delivered X env ir \<and> ledger_fault X (fst ir) = None)"

text \<open>
  The record a row leaves in \<^verbatim>\<open>log_rows\<close> (lines 439-445, 474-480 and 485-491), and the
  ledger entry of lines 459-465.
\<close>

definition row_outcome :: "outside \<Rightarrow> send_env \<Rightarrow> nat \<times> row \<Rightarrow> outcome" where
  "row_outcome X env ir =
     (let r = snd ir;
          status_comment =
            (if \<not> valid_addr X env r then (status_error, invalid_email_text)
             else if dry_run env then (status_dry_run, dry_run_comment)
             else case smtp_server X (fst ir) (row_request X env r) of
                    Some msg \<Rightarrow> (status_error, msg)
                  | None \<Rightarrow>
                      (case ledger_fault X (fst ir) of
                         Some msg \<Rightarrow> (status_error, msg)
                       | None \<Rightarrow> (status_ok, [])))
      in \<lparr>o_fio = row_fio X env r, o_email = row_addr X env r, o_debt = row_debt r,
          o_status = fst status_comment, o_comment = snd status_comment\<rparr>)"

definition row_entry :: "outside \<Rightarrow> send_env \<Rightarrow> nat \<times> row \<Rightarrow> monitoring_entry" where
  "row_entry X env ir =
     \<lparr>contact_date = now_text X (fst ir), entry_fio = row_fio X env (snd ir),
      entry_debt = row_debt (snd ir), contact_way = contact_email,
      contact_status = status_auto_delivered,
      entry_comment = sent_to_prefix @ row_addr X env (snd ir)\<rparr>"

text \<open>\<^verbatim>\<open>enumerate(..., start=idx)\<close>.\<close>

fun enumerate_from :: "nat \<Rightarrow> 'a list \<Rightarrow> (nat \<times> 'a) list" where
  "enumerate_from idx [] = []"
| "enumerate_from idx (x # xs) = (idx, x) # enumerate_from (Suc idx) xs"

text \<open>Lines 399-407: the empty log and the two counters at \<open>0\<close>.\<close>

definition start_state :: loop_state where
  "start_state = \<lparr>log_rows = [], ok = 0, fail = 0\<rparr>"


text \<open>What the loop has done when it is through \<open>rs\<close>, numbered from \<open>idx\<close>.\<close>

definition loop_post ::
  "outside \<Rightarrow> send_env \<Rightarrow> nat \<Rightarrow> row list \<Rightarrow> world \<times> loop_state \<Rightarrow> world \<times> loop_state \<Rightarrow> bool" where
  "loop_post X env idx rs before after =
     (let w = fst before; st = snd before; w' = fst after; st' = snd after;
          outcomes = map (row_outcome X env) (enumerate_from idx rs);
          ent = filter (entered X env) (enumerate_from idx rs)
      in log_rows st' = log_rows st @ outcomes
       \<and> ok st' = ok st + length (filter (\<lambda>oc. o_status oc \<noteq> status_error) outcomes)
       \<and> fail st' = fail st + length (filter (\<lambda>oc. o_status oc = status_error) outcomes)
       \<and> sent w' = sent w @ map (row_request X env) (filter (attempted X env) rs)
       \<and> slept w' = slept w @ replicate (length ent) (sleep_time env)
       \<and> load_monitoring_data w' = load_monitoring_data w @ map (row_entry X env) ent
       \<and> (if ent = [] then ledger_file w' = ledger_file w else True)
       \<and> length (progress w') = length (progress w) + length rs)"

text \<open>
  The arguments a template asks for: the argument of each field, and of each field in
  the format spec of a field when that spec holds a brace (\<open>123\<close> is the code point of
  \<^verbatim>\<open>{\<close>), to the two levels \<^verbatim>\<open>str.format\<close> reads. Then the four keyword arguments
  \<^verbatim>\<open>make_body\<close> passes (lines 358-363).
\<close>

fun piece_args :: "(ustr \<Rightarrow> ustr list) \<Rightarrow> piece \<Rightarrow> ustr list" where
  "piece_args nested (Literal t) = []"
| "piece_args nested (Replacement name conv spec) =
     arg_name name # (if 123 \<in> set spec then nested spec else [])"

primrec template_args :: "nat \<Rightarrow> ustr \<Rightarrow> ustr list" where
  "template_args 0 = (\<lambda>s. [])"
| "template_args (Suc d) = (\<lambda>s. concat (map (piece_args (template_args d)) (fst (pieces s))))"

definition placeholders :: "ustr \<Rightarrow> ustr list" where
  "placeholders s = template_args 2 s"

definition recognized_fields :: "ustr list" where
  "recognized_fields = [ascii ''FIO'', ascii ''DEBT'', ascii ''TODAY'', ascii ''DUE'']"

text \<open>
  A template of text and of the fields \<^verbatim>\<open>{FIO}\<close>, \<^verbatim>\<open>{DEBT}\<close>, \<^verbatim>\<open>{TODAY}\<close>,
  \<^verbatim>\<open>{DUE}\<close> written plainly, without member access, conversion or format spec.
\<close>

fun plain_piece :: "piece \<Rightarrow> bool" where
  "plain_piece (Literal t) = True"
| "plain_piece (Replacement name conv spec) =
     (name \<in> set recognized_fields \<and> conv = None \<and> spec = [])"

definition plain_template :: "ustr \<Rightarrow> bool" where
  "plain_template s = (snd (pieces s) = None \<and> list_all plain_piece (fst (pieces s)))"

section \<open>A small batch\<close>

text \<open>
  Three debtors, the second without a usable address; a server that refuses the third
  letter; a ledger file that can be written and one that cannot; the settings of a
  rehearsal, of a real run, of a real run without a host, of a run whose template names
  a field that does not exist, and of a run whose template takes the first letter of the
  name (\<^verbatim>\<open>{FIO[0]}\<close>, for which \<open>first_letter\<close> is what Python does: \<^verbatim>\<open>IndexError\<close> on
  the empty string); and the three debtors with the name of the second left blank. The
  theorems are instantiated on them.
\<close>

definition first_letter :: "ustr \<Rightarrow> ustr \<Rightarrow> py_error + pyval" where
  "first_letter v a =
     (if a = ascii ''[0]'' then (case v of [] \<Rightarrow> Inl IndexError | c # cs \<Rightarrow> Inr (VStr [c]))
      else Inl (OtherError a))"

definition sample_server :: "nat \<Rightarrow> smtp_request \<Rightarrow> ustr option" where
  "sample_server i q = (if i = 3 then Some (ascii ''refused'') else None)"

definition demo_outside :: outside where
  "demo_outside =
     \<lparr>float_str = (\<lambda>f. ascii ''nan''),
      format_comma_2f = (\<lambda>f. ascii ''1,234.50''),
      date_dmy = (\<lambda>d. ascii ''01.01.2026''),
      get_member = first_letter,
      convert = (\<lambda>v c. Inr v),
      format_value = (\<lambda>v s. Inl (OtherError s)),
      smtp_server = sample_server,
      ledger_fault = (\<lambda>i. None),
      now_text = (\<lambda>i. ascii ''01.01.2026 10:00'')\<rparr>"

definition demo_outside_locked :: outside where
  "demo_outside_locked = demo_outside\<lparr>ledger_fault := (\<lambda>i. Some (ascii ''Permission denied''))\<rparr>"

definition demo_env :: send_env where
  "demo_env =
     \<lparr>mode = PerRowAddress, common_email = [], email_col = Some (ascii ''mail''),
      fio_col = ascii ''fio'', dry_run = True,
      smtp_host = ascii ''smtp.x.ru'', smtp_port = 587, smtp_user = [], smtp_password = [],
      use_tls = True, from_addr = ascii ''uk@x.ru'', subject = ascii ''Debt'',
      template = ascii ''Dear {FIO}, pay {DEBT} by {DUE}.'',
      sleep_time = Finite 1, today = 739987\<rparr>"

definition demo_env_real :: send_env where
  "demo_env_real = demo_env\<lparr>dry_run := False\<rparr>"

definition demo_env_no_host :: send_env where
  "demo_env_no_host = demo_env\<lparr>dry_run := False, smtp_host := []\<rparr>"

definition demo_env_bad_template :: send_env where
  "demo_env_bad_template = demo_env\<lparr>template := ascii ''Dear {NAME}''\<rparr>"

definition demo_env_initial :: send_env where
  "demo_env_initial = demo_env\<lparr>template := ascii ''{FIO[0]}., pay {DEBT}''\<rparr>"

definition demo_row :: "string \<Rightarrow> string \<Rightarrow> rat \<Rightarrow> row" where
  "demo_row name addr d =
     [ascii ''fio'' \<mapsto> CStr (ascii name), ascii ''mail'' \<mapsto> CStr (ascii addr),
      debt_key \<mapsto> CFloat (Finite d)]"

definition demo_rows :: "row list" where
  "demo_rows = [demo_row ''Ivanov'' ''a@x.ru'' 100, demo_row ''Petrov'' ''none'' 5,
                demo_row ''Sidorov'' ''c@x.ru'' 7]"

definition demo_rows_blank :: "row list" where
  "demo_rows_blank = [demo_row ''Ivanov'' ''a@x.ru'' 100, demo_row '' '' ''none'' 5,
                      demo_row ''Sidorov'' ''c@x.ru'' 7]"

definition empty_world :: world where
  "empty_world = \<lparr>ledger_file = None, sent = [], slept = [], progress = []\<rparr>"

section \<open>Evaluation rules\<close>

lemma bit_length_numeral [simp]: "bit_length (numeral n) = Suc (bit_length (numeral n div 2))"
  by (subst bit_length.simps) simp

lemma bit_length_0 [simp]: "bit_length 0 = 0"
  by (subst bit_length.simps) simp

lemma bit_length_1 [simp]: "bit_length (Suc 0) = 1"
  by (subst bit_length.simps) simp

lemmas round_eval = round_ratio_def pack64_def scaled_round_def floor_log2_ratio_def
  round_div_half_even_def pow2_def Let_def

lemmas to_number_eval = to_number_def to_number_text_def clean_number_text_def replace_char_def
  remove_char_def numeric_char_def is_digit_def py_float_str_def digits_value_def ascii_def
  py_float_int_def decimal_float_def

lemmas field_defs = F_account_def F_fio_def F_address_def F_last_payment_def F_accrued_def
  F_benefit_def F_to_pay_def F_debt_def F_penalty_def F_debt_date_def F_email_def

lemmas clean_eval = clean_col_def strip_def lower_basic_def is_space_def sep_char_def ascii_def

section \<open>NumericNormalizer\<close>

text \<open>
  The two \<^verbatim>\<open>replace\<close> calls for blanks are subsumed by the \<^verbatim>\<open>re.sub\<close>: the cleaned
  text is the input with every comma turned into a period and every character other
  than a digit, a period or a minus sign dropped.
\<close>

lemma clean_number_text_eq:
  "clean_number_text s = filter numeric_char (map (\<lambda>c. if c = 44 then 46 else c) s)"
  by (induction s)
     (auto simp: clean_number_text_def replace_char_def remove_char_def numeric_char_def is_digit_def)

lemma numeric_clean: "list_all numeric_char (clean_number_text s)"
  by (simp add: clean_number_text_eq list_all_iff)

text \<open>
  For a text, the result is what \<^verbatim>\<open>float\<close> makes of the cleaned text, and \<open>0.0\<close> when
  \<^verbatim>\<open>float\<close> rejects it; the five strings tested at line 108 are among the rejected.
\<close>

lemma to_number_text_eq:
  "to_number_text s =
     (case py_float_str (clean_number_text s) of Inr v \<Rightarrow> v | Inl e \<Rightarrow> Finite 0)"
proof -
  have "py_float_str t = Inl (ValueError t)"
    if "t \<in> set [[], [46], [45], [45, 46], [46, 45]]" for t
    using that by (auto simp: py_float_str_def is_digit_def)
  then show ?thesis
    by (auto simp: to_number_text_def Let_def simp del: set_simps)
qed

lemma to_number_on_text:
  "to_number (CStr s) = Inr (to_number_text s)" "to_number (CObj s) = Inr (to_number_text s)"
  by (simp_all add: to_number_def)

lemma py_float_int_bool: "py_float_int 0 = Inr (Finite 0)" "py_float_int 1 = Inr (Finite 1)"
  by (simp_all add: py_float_int_def round_eval)

lemma py_float_int_error: "py_float_int n = Inl e \<Longrightarrow> e = OverflowError"
  by (auto simp: py_float_int_def split: pyfloat.splits)

text \<open>The only way \<open>to_number\<close> raises: the cast of an \<^verbatim>\<open>int\<close> cell at line 102.\<close>

lemma to_number_raises_iff:
  "(to_number x = Inl e) = (\<exists>n. x = CInt n \<and> py_float_int n = Inl e)"
  by (cases x) (auto simp: to_number_def py_float_int_bool)

text \<open>The values the specification lists; \<^verbatim>\<open>1234.56\<close> is the double nearest to it.\<close>

lemma to_number_examples:
  "to_number (CStr (ascii ''1 234,56'')) = Inr (decimal_float False 123456 2)"
  "to_number (CStr []) = Inr (Finite 0)"
  "to_number CNone = Inr (Finite 0)"
  "to_number (CFloat NaN) = Inr (Finite 0)"
  "to_number (CStr (ascii ''abc'')) = Inr (Finite 0)"
  "to_number (CInt (- 42)) = Inr (Finite (- 42))"
  by (simp_all add: to_number_eval round_eval)

text \<open>
  Claim C3. \<open>to_number\<close> is said never to raise. On text it never does
  (\<open>to_number_on_text\<close>), and the listed values are as stated (\<open>to_number_examples\<close>),
  but an \<^verbatim>\<open>int\<close> cell too large for a double is cast at line 102, outside the
  \<^verbatim>\<open>try\<close> that guards the cast of a text at line 111: \<^verbatim>\<open>to_number(2**1024)\<close> raises
  \<^verbatim>\<open>OverflowError\<close>.
\<close>

theorem to_number_raises_on_huge_int: "to_number (CInt (2 ^ 1024)) = Inl OverflowError"
  by (simp add: to_number_eval round_eval)

section \<open>SchemaMapper\<close>

lemma str_contains_sublist: "str_contains a b = sublist a b"
  by (induction b) (auto simp: sublist_Cons_right)

lemma dict_set_fresh: "k \<notin> fst ` set d \<Longrightarrow> dict_set d k v = d @ [(k, v)]"
  by (induction d) auto

lemma dict_set_map:
  "dict_set (map (\<lambda>c. (c, f c)) ks) c (f c) = map (\<lambda>c. (c, f c)) (if c \<in> set ks then ks else ks @ [c])"
  by (induction ks) auto

lemma cols_clean_fold:
  "foldl (\<lambda>d c. dict_set d c (f c)) (map (\<lambda>c. (c, f c)) ks) cols
     = map (\<lambda>c. (c, f c)) (foldl (\<lambda>ks c. if c \<in> set ks then ks else ks @ [c]) ks cols)"
proof (induction cols arbitrary: ks)
  case Nil
  then show ?case by simp
next
  case (Cons c cols)
  show ?case
    using Cons.IH [of "if c \<in> set ks then ks else ks @ [c]"]
    by (simp only: foldl_Cons dict_set_map)
qed

lemma find_app: "find P (xs @ ys) = (case find P xs of Some x \<Rightarrow> Some x | None \<Rightarrow> find P ys)"
  by (induction xs) auto

lemma find_fold_first:
  "find P (foldl (\<lambda>ks c. if c \<in> set ks then ks else ks @ [c]) ks cols)
     = (case find P ks of Some x \<Rightarrow> Some x | None \<Rightarrow> find P cols)"
proof (induction cols arbitrary: ks)
  case Nil
  then show ?case by (simp split: option.splits)
next
  case (Cons c cols)
  show ?case
  proof (cases "c \<in> set ks")
    case True
    then have "find P ks = None \<Longrightarrow> \<not> P c"
      by (auto simp: find_None_iff)
    with True show ?thesis
      using Cons.IH [of ks] by (auto split: option.splits)
  next
    case False
    then show ?thesis
      using Cons.IH [of "ks @ [c]"] by (auto simp: find_app split: option.splits)
  qed
qed

lemma cols_clean_eq:
  "cols_clean lower cols =
     map (\<lambda>c. (c, clean_col lower c)) (foldl (\<lambda>ks c. if c \<in> set ks then ks else ks @ [c]) [] cols)"
  using cols_clean_fold [of "clean_col lower" "[]" cols] by (simp add: cols_clean_def)

lemma scan_variants_eq:
  "scan_variants lower vs col cc found =
     (if list_ex (\<lambda>v. str_contains (clean_col lower v) cc) vs then Some col else found)"
  by (induction vs) auto

lemma scan_columns_eq:
  assumes "\<not> list_ex (\<lambda>v. str_contains (clean_col lower v) (clean_col lower [])) variants"
  shows "scan_columns lower variants (map (\<lambda>c. (c, clean_col lower c)) ks) None
     = find (\<lambda>h. list_ex (\<lambda>v. str_contains (clean_col lower v) (clean_col lower h)) variants) ks"
  using assms by (induction ks) (auto simp: scan_variants_eq Let_def)

lemma foldl_dict_set_distinct:
  "distinct (map fst kvs) \<Longrightarrow> fst ` set acc \<inter> fst ` set kvs = {} \<Longrightarrow>
   foldl (\<lambda>res (k, v). dict_set res k (g v)) acc kvs = acc @ map (\<lambda>(k, v). (k, g v)) kvs"
proof (induction kvs arbitrary: acc)
  case Nil
  then show ?case by simp
next
  case (Cons kv kvs)
  obtain k v where kv: "kv = (k, v)" by (cases kv)
  have fresh: "k \<notin> fst ` set acc"
    using Cons.prems(2) kv by auto
  have "fst ` set (acc @ [(k, g v)]) \<inter> fst ` set kvs = {}"
    using Cons.prems kv by (auto simp: image_iff)
  then show ?case
    using Cons.IH [of "acc @ [(k, g v)]"] Cons.prems(1) kv fresh
    by (simp add: dict_set_fresh)
qed

lemma ALIASES_distinct: "distinct (map fst ALIASES)"
  by (simp add: ALIASES_def field_defs ascii_def)

lemma ALIASES_variants_solid:
  "list_all (\<lambda>(f, vs). list_all (\<lambda>v. v \<noteq> [] \<and> \<not> is_space (hd v)) vs) ALIASES"
  by (simp add: ALIASES_def ascii_def is_space_def)

lemma strip_Nil_iff: "(strip s = []) = (dropWhile is_space s = [])"
proof (cases "dropWhile is_space s")
  case Nil
  show ?thesis unfolding strip_def Nil by simp
next
  case (Cons c cs)
  then have "\<not> is_space c"
    using hd_dropWhile [of is_space s] by auto
  then have "dropWhile is_space (rev (c # cs)) \<noteq> []"
    by (auto simp: dropWhile_eq_Nil_conv)
  with Cons show ?thesis by (simp add: strip_def)
qed

lemma strip_solid: "v \<noteq> [] \<Longrightarrow> \<not> is_space (hd v) \<Longrightarrow> strip v \<noteq> []"
  by (cases v) (auto simp: strip_Nil_iff)

lemma collapse_seps_Nil_iff: "(collapse_seps s = []) = (s = [])"
  by (cases s) auto

lemma clean_col_Nil_iff:
  assumes "\<And>s. (lower s = []) = (s = [])"
  shows "(clean_col lower s = []) = (strip s = [])"
  by (simp add: clean_col_def collapse_seps_Nil_iff assms)

lemma no_match_on_empty:
  assumes lower: "\<And>s. (lower s = []) = (s = [])"
    and "(field, variants) \<in> set ALIASES"
  shows "\<not> list_ex (\<lambda>v. str_contains (clean_col lower v) (clean_col lower [])) variants"
proof -
  have "\<forall>v\<in>set variants. v \<noteq> [] \<and> \<not> is_space (hd v)"
    using ALIASES_variants_solid assms(2) by (auto simp: list_all_iff)
  then have "\<forall>v\<in>set variants. clean_col lower v \<noteq> []"
    by (auto simp: clean_col_Nil_iff [OF lower] dest: strip_solid)
  moreover have "clean_col lower [] = []"
    by (simp add: clean_col_Nil_iff [OF lower] strip_def)
  ultimately show ?thesis
    by (auto simp: list_ex_iff)
qed

text \<open>
  Claim C4. For every list of column labels and every field of \<open>ALIASES\<close>, the mapper
  assigns the first label, in the table's column order, whose cleaned form contains the
  cleaned form of one of the field's aliases, and \<open>None\<close> when there is no such label;
  it returns one entry per field and never raises. \<open>lower\<close> stands for \<^verbatim>\<open>str.lower\<close>, of
  which only this is used: it maps the empty string, and no other, to the empty string.
\<close>

theorem auto_map_first_match:
  assumes lower: "\<And>s. (lower s = []) = (s = [])"
  shows "auto_map_columns lower cols =
     map (\<lambda>(field, variants).
            (field, find (\<lambda>h. list_ex (\<lambda>v. str_contains (clean_col lower v) (clean_col lower h)) variants) cols))
         ALIASES"
proof -
  let ?ks = "foldl (\<lambda>ks c. if c \<in> set ks then ks else ks @ [c]) [] cols"
  let ?cc = "map (\<lambda>c. (c, clean_col lower c)) ?ks"
  let ?P = "\<lambda>variants h. list_ex (\<lambda>v. str_contains (clean_col lower v) (clean_col lower h)) variants"
  have fold: "auto_map_columns lower cols =
      map (\<lambda>(field, variants). (field, scan_columns lower variants ?cc None)) ALIASES"
    using foldl_dict_set_distinct [OF ALIASES_distinct, of "[]" "\<lambda>variants. scan_columns lower variants ?cc None"]
    by (simp add: auto_map_columns_def cols_clean_eq Let_def)
  have "scan_columns lower variants ?cc None = find (?P variants) cols"
    if "(field, variants) \<in> set ALIASES" for field variants
    using scan_columns_eq [OF no_match_on_empty [OF lower that], of ?ks]
      find_fold_first [of "?P variants" "[]" cols]
    by simp
  then show ?thesis
    unfolding fold by (intro map_cong) auto
qed

text \<open>The specification's example: three Cyrillic labels (\<^verbatim>\<open>Litsevoy schet\<close>,
  \<^verbatim>\<open>F.I.O.\<close>, \<^verbatim>\<open>Dolg, rub\<close>) map to the account, the name and the debt.\<close>

theorem auto_map_example:
  "auto_map_columns lower_basic
     [[1051, 1080, 1094, 1077, 1074, 1086, 1081, 32, 1089, 1095, 1077, 1090],
      [1060, 46, 1048, 46, 1054, 46],
      [1044, 1086, 1083, 1075, 44, 32, 1088, 1091, 1073]]
   = [(F_account, Some [1051, 1080, 1094, 1077, 1074, 1086, 1081, 32, 1089, 1095, 1077, 1090]),
      (F_fio, Some [1060, 46, 1048, 46, 1054, 46]),
      (F_address, None),
      (F_last_payment, None),
      (F_accrued, None),
      (F_benefit, None),
      (F_to_pay, None),
      (F_debt, Some [1044, 1086, 1083, 1075, 44, 32, 1088, 1091, 1073]),
      (F_penalty, None),
      (F_debt_date, None),
      (F_email, None)]"
proof -
  have "(lower_basic s = []) = (s = [])" for s
    by (simp add: lower_basic_def)
  from auto_map_first_match [of lower_basic, OF this] show ?thesis
    by (simp add: ALIASES_def clean_eval)
qed

section \<open>DebtSelector\<close>


lemma apply_to_number_raises:
  "apply_to_number xs = Inl e \<Longrightarrow> \<exists>x\<in>set xs. to_number x = Inl e"
  by (induction xs) (auto split: sum.splits)






section \<open>The dispatch loop\<close>

text \<open>Rules that evaluate the template formatter, the reading of a row and the handler.\<close>

lemmas format_eval = make_body_def py_format_def numeral_2_eq_2 pieces.simps markup_next_def
  parse_field_def parse_spec_def not_brace_def render_field_def arg_name_def accessors_def
  format_money_def replace_char_def is_digit_def ascii_def

lemmas row_eval = row_body_def row_fio_def row_addr_def row_debt_def debt_of_def debt_key_def
  row_get_def strip_def is_space_def valid_addr_def row_request_def send_email_smtp_def due_def

lemmas demo_defs = demo_outside_def demo_env_def demo_row_def demo_rows_def empty_world_def
  sample_server_def

lemmas loop_eval = process_row_def try_send_def success_def failure_def send_clicked_def
  preflight_def run_page_def preview_def start_state_def Let_def

text \<open>
  \<^verbatim>\<open>make_body\<close> on three templates: the fields are filled in; an unknown field raises
  \<^verbatim>\<open>KeyError\<close>; doubled braces are literal, and a nested spec is expanded before the
  value is formatted.
\<close>

lemma make_body_examples:
  "make_body demo_outside demo_env (ascii ''Ivanov'') (Finite 5)
     = Inr (ascii ''Dear Ivanov, pay 1 234.50 by 01.01.2026.'')"
  "make_body demo_outside (demo_env\<lparr>template := ascii ''Dear {NAME}''\<rparr>) (ascii ''Ivanov'') (Finite 5)
     = Inl (KeyError (ascii ''NAME''))"
  "make_body demo_outside (demo_env\<lparr>template := ascii ''a{{b}} {FIO!r:>{DEBT}} }''\<rparr>)
     (ascii ''Ivanov'') (Finite 5) = Inl (OtherError (ascii ''>1 234.50''))"
  by (simp_all add: format_eval demo_outside_def demo_env_def)

text \<open>
  The arguments three templates ask for: doubled braces are text, the argument of a field
  in a format spec counts, and a member access counts as its argument.
\<close>

lemma placeholders_examples:
  "placeholders (ascii ''Dear {FIO}, pay {DEBT} by {DUE}.'') = [ascii ''FIO'', ascii ''DEBT'', ascii ''DUE'']"
  "placeholders (ascii ''{FIO:>{WIDTH}} {{DEBT}} {TODAY.year}'') = [ascii ''FIO'', ascii ''WIDTH'', ascii ''TODAY'']"
  "placeholders (ascii ''no fields'') = []"
  by (simp_all add: placeholders_def format_eval)

text \<open>Numbering keeps the rows and their order.\<close>

lemma length_enumerate_from [simp]: "length (enumerate_from idx xs) = length xs"
  by (induction xs arbitrary: idx) auto

lemma map_snd_enumerate_from [simp]: "map snd (enumerate_from idx xs) = xs"
  by (induction xs arbitrary: idx) auto

lemma enumerate_from_nth: "k < length xs \<Longrightarrow> enumerate_from idx xs ! k = (idx + k, xs ! k)"
  by (induction xs arbitrary: idx k) (auto simp: nth_Cons split: nat.splits)

text \<open>One turn of the loop, when the body of the letter can be made.\<close>

lemma try_send_log:
  "row_body X env r = Inr body \<Longrightarrow>
   log_rows (snd (try_send X env idx (row_fio X env r) (row_addr X env r) (row_debt r) body (w, st)))
     = log_rows st @ [row_outcome X env (idx, r)]"
  by (auto simp: try_send_def row_outcome_def row_request_def valid_addr_def failure_def
      success_def Let_def split: option.splits)

lemma try_send_counts:
  "row_body X env r = Inr body \<Longrightarrow>
   ok (snd (try_send X env idx (row_fio X env r) (row_addr X env r) (row_debt r) body (w, st)))
     = ok st + (if o_status (row_outcome X env (idx, r)) = status_error then 0 else 1) \<and>
   fail (snd (try_send X env idx (row_fio X env r) (row_addr X env r) (row_debt r) body (w, st)))
     = fail st + (if o_status (row_outcome X env (idx, r)) = status_error then 1 else 0)"
  by (auto simp: try_send_def row_outcome_def row_request_def valid_addr_def failure_def
      success_def Let_def status_error_def status_ok_def status_dry_run_def ascii_def
      split: option.splits)

lemma try_send_world:
  assumes "row_body X env r = Inr body"
    and "ws1 = try_send X env idx (row_fio X env r) (row_addr X env r) (row_debt r) body (w, st)"
  shows "sent (fst ws1) = sent w @ (if attempted X env r then [row_request X env r] else [])"
    and "slept (fst ws1) = slept w @ (if entered X env (idx, r) then [sleep_time env] else [])"
    and "load_monitoring_data (fst ws1) =
           load_monitoring_data w @ (if entered X env (idx, r) then [row_entry X env (idx, r)] else [])"
    and "\<not> entered X env (idx, r) \<Longrightarrow> ledger_file (fst ws1) = ledger_file w"
    and "progress (fst ws1) = progress w"
  using assms
  by (auto simp: try_send_def attempted_def delivered_def entered_def valid_addr_def row_request_def
      row_entry_def add_to_monitoring_def load_monitoring_data_def save_monitoring_data_def
      Let_def split: option.splits)

lemma load_progress [simp]:
  "load_monitoring_data (w\<lparr>progress := p\<rparr>) = load_monitoring_data w"
  by (simp add: load_monitoring_data_def)

text \<open>
  When every body can be made the loop returns, and it has done what \<open>loop_post\<close> says:
  induction on the rows.
\<close>

lemma loop_post_Nil: "loop_post X env idx [] ws ws"
  by (simp add: loop_post_def)

lemma loop_post_Cons:
  assumes body: "row_body X env r = Inr body"
    and one: "ws1 = try_send X env idx (row_fio X env r) (row_addr X env r) (row_debt r) body (w, st)"
    and rest: "loop_post X env (Suc idx) rs (fst ws1\<lparr>progress := progress (fst ws1) @ [p]\<rparr>, snd ws1) ws2"
  shows "loop_post X env idx (r # rs) (w, st) ws2"
proof -
  note tw = try_send_world [OF body one]
  have tl: "log_rows (snd ws1) = log_rows st @ [row_outcome X env (idx, r)]"
    unfolding one by (rule try_send_log [OF body])
  have tc: "ok (snd ws1) = ok st + (if o_status (row_outcome X env (idx, r)) = status_error then 0 else 1)"
    "fail (snd ws1) = fail st + (if o_status (row_outcome X env (idx, r)) = status_error then 1 else 0)"
    unfolding one using try_send_counts [OF body, of idx w st] by simp_all
  show ?thesis
    using rest tw tl tc
    by (auto simp: loop_post_def Let_def replicate_app_Cons_same)
qed

lemma dispatch_loop_run:
  assumes "\<forall>r\<in>set rs. \<not> isl (row_body X env r)"
  shows "\<exists>ws'. dispatch_loop X env n idx rs (w, st) = (fst ws', Inr (snd ws'))
               \<and> loop_post X env idx rs (w, st) ws'"
  using assms
proof (induction rs arbitrary: idx w st)
  case Nil
  show ?case
    using loop_post_Nil [of X env idx "(w, st)"] by (intro exI [of _ "(w, st)"]) simp
next
  case (Cons r rs)
  from Cons.prems obtain body where body: "row_body X env r = Inr body"
    by (cases "row_body X env r") auto
  define ws1 where "ws1 = try_send X env idx (row_fio X env r) (row_addr X env r) (row_debt r) body (w, st)"
  define w1 where "w1 = (fst ws1)\<lparr>progress := progress (fst ws1) @ [(idx, n, ok (snd ws1), fail (snd ws1))]\<rparr>"
  have step: "process_row X env n idx r (w, st) = (w1, Inr (snd ws1))"
    using body by (simp add: process_row_def row_body_def Let_def ws1_def w1_def split: prod.splits)
  from Cons.IH [of "Suc idx" w1 "snd ws1"] Cons.prems obtain ws2 where
    run: "dispatch_loop X env n (Suc idx) rs (w1, snd ws1) = (fst ws2, Inr (snd ws2))"
    and post: "loop_post X env (Suc idx) rs (w1, snd ws1) ws2"
    by auto
  have "loop_post X env idx (r # rs) (w, st) ws2"
    using loop_post_Cons [OF body ws1_def] post unfolding w1_def by blast
  moreover have "dispatch_loop X env n idx (r # rs) (w, st) = (fst ws2, Inr (snd ws2))"
    using step run by simp
  ultimately show ?case by blast
qed

lemma loop_from_start:
  assumes "\<forall>r\<in>set rs. \<not> isl (row_body X env r)"
  obtains w' st' where "dispatch_loop X env n 1 rs (w, start_state) = (w', Inr st')"
    and "loop_post X env 1 rs (w, start_state) (w', st')"
  using dispatch_loop_run [OF assms, of n 1 w start_state] by auto

text \<open>Conversely, a loop that returned has made every body.\<close>

lemma dispatch_loop_bodies:
  "dispatch_loop X env n idx rs ws = (w', Inr st') \<Longrightarrow> \<forall>r\<in>set rs. \<not> isl (row_body X env r)"
proof (induction rs arbitrary: idx ws)
  case Nil
  then show ?case by simp
next
  case (Cons r rs)
  from Cons.prems obtain w1 st1 where
    step: "process_row X env n idx r ws = (w1, Inr st1)"
    and run: "dispatch_loop X env n (Suc idx) rs (w1, st1) = (w', Inr st')"
    by (auto split: prod.splits sum.splits)
  from step have "\<not> isl (row_body X env r)"
    by (auto simp: process_row_def row_body_def Let_def split: sum.splits prod.splits)
  with Cons.IH [OF run] show ?case by simp
qed

lemma dispatch_loop_complete:
  assumes "dispatch_loop X env n idx rs (w, st) = (w', Inr st')"
  shows "loop_post X env idx rs (w, st) (w', st')"
  using dispatch_loop_run [OF dispatch_loop_bodies [OF assms], of n idx w st] assms
  by auto

lemma send_clicked_Finished:
  assumes "send_clicked X env debtors w = (w', Finished lg k f)"
  shows "\<exists>st'. loop_post X env 1 debtors (w, start_state) (w', st')
             \<and> lg = log_rows st' \<and> k = ok st' \<and> f = fail st'"
proof -
  from assms obtain st' where
    run: "dispatch_loop X env (length debtors) 1 debtors (w, start_state) = (w', Inr st')"
    and "lg = log_rows st'" "k = ok st'" "f = fail st'"
    by (auto simp: send_clicked_def start_state_def split: option.splits prod.splits sum.splits)
  with dispatch_loop_complete [OF run] show ?thesis by blast
qed

text \<open>
  A loop that is left by an exception has done to the ledger, the server and the clock
  what the loop over the rows it came through does.
\<close>

lemma process_row_raises:
  "isl (row_body X env r) \<Longrightarrow> \<exists>e. process_row X env n idx r ws = (fst ws, Inl e)"
  by (cases "make_body X env (row_fio X env r) (row_debt r)")
    (simp_all add: process_row_def row_body_def Let_def)






text \<open>The record of a row, case by case.\<close>

lemma status_distinct:
  "status_ok \<noteq> status_error" "status_dry_run \<noteq> status_error"
  by (simp_all add: status_ok_def status_dry_run_def status_error_def ascii_def)

lemma outcome_invalid:
  "\<not> valid_addr X env r \<Longrightarrow>
     o_status (row_outcome X env (i, r)) = status_error
     \<and> o_comment (row_outcome X env (i, r)) = invalid_email_text"
  by (simp add: row_outcome_def)

lemma outcome_dry_run:
  "valid_addr X env r \<Longrightarrow> dry_run env \<Longrightarrow>
     o_status (row_outcome X env (i, r)) = status_dry_run
     \<and> o_comment (row_outcome X env (i, r)) = dry_run_comment"
  by (simp add: row_outcome_def)

lemma outcome_refused:
  "valid_addr X env r \<Longrightarrow> \<not> dry_run env \<Longrightarrow> smtp_server X i (row_request X env r) = Some msg \<Longrightarrow>
     o_status (row_outcome X env (i, r)) = status_error
     \<and> o_comment (row_outcome X env (i, r)) = msg"
  by (simp add: row_outcome_def)


lemma outcome_entered:
  "valid_addr X env r \<Longrightarrow> \<not> dry_run env \<Longrightarrow> smtp_server X i (row_request X env r) = None \<Longrightarrow>
   ledger_fault X i = None \<Longrightarrow>
     o_status (row_outcome X env (i, r)) = status_ok
     \<and> o_comment (row_outcome X env (i, r)) = []"
  by (simp add: row_outcome_def)

lemma outcome_success:
  "valid_addr X env r \<Longrightarrow>
   dry_run env \<or> (smtp_server X i (row_request X env r) = None \<and> ledger_fault X i = None) \<Longrightarrow>
     o_status (row_outcome X env (i, r)) = (if dry_run env then status_dry_run else status_ok)"
  by (auto simp: row_outcome_def)



text \<open>A rehearsal leaves the ledger, the mail server and the clock alone, whatever happens.\<close>

lemma process_row_dry_frame:
  assumes "dry_run env"
  shows "ledger_file (fst (process_row X env n idx r (w, st))) = ledger_file w
       \<and> sent (fst (process_row X env n idx r (w, st))) = sent w
       \<and> slept (fst (process_row X env n idx r (w, st))) = slept w"
  using assms
  by (auto simp: process_row_def try_send_def Let_def split: sum.splits prod.splits)

lemma dispatch_loop_dry_frame:
  assumes "dry_run env"
  shows "ledger_file (fst (dispatch_loop X env n idx rs (w, st))) = ledger_file w
       \<and> sent (fst (dispatch_loop X env n idx rs (w, st))) = sent w
       \<and> slept (fst (dispatch_loop X env n idx rs (w, st))) = slept w"
proof (induction rs arbitrary: idx w st)
  case Nil
  show ?case by simp
next
  case (Cons r rs)
  obtain w1 res where step: "process_row X env n idx r (w, st) = (w1, res)"
    by (cases "process_row X env n idx r (w, st)")
  have w1: "ledger_file w1 = ledger_file w \<and> sent w1 = sent w \<and> slept w1 = slept w"
    using process_row_dry_frame [OF assms, of X n idx r w st] step by simp
  show ?case
  proof (cases res)
    case (Inl e)
    with step w1 show ?thesis by simp
  next
    case (Inr st1)
    with step w1 Cons.IH [of "Suc idx" w1 st1] show ?thesis by simp
  qed
qed

text \<open>The checks of lines 380-394.\<close>

lemma missing_config_Nil_iff:
  "(missing_config env = []) =
     (smtp_host env \<noteq> [] \<and> from_addr env \<noteq> [] \<and> \<not> (smtp_user env \<noteq> [] \<and> smtp_password env = []))"
  by (simp add: missing_config_def)

lemma preflight_Some_iff:
  "(preflight env debtors \<noteq> None) =
     (debtors = [] \<or> (\<not> dry_run env \<and>
        (smtp_host env = [] \<or> from_addr env = [] \<or> (smtp_user env \<noteq> [] \<and> smtp_password env = []))))"
  using missing_config_Nil_iff [of env] by (auto simp: preflight_def)

text \<open>A field whose argument is not passed makes \<^verbatim>\<open>format\<close> raise, at either level.\<close>

lemma render_field_unknown:
  "kw (arg_name name) = None \<Longrightarrow> isl (render_field expand X kw name conv spec)"
  by (simp add: render_field_def)

lemma render_field_spec_fails:
  "123 \<in> set spec \<Longrightarrow> isl (expand spec) \<Longrightarrow> isl (render_field expand X kw name conv spec)"
  by (cases "expand spec") (auto simp: render_field_def split: option.splits sum.splits)

lemma render_pieces_unknown:
  assumes "kw a = None"
    and "\<And>spec. 123 \<in> set spec \<Longrightarrow> a \<in> set (nested spec) \<Longrightarrow> isl (expand spec)"
    and "a \<in> set (concat (map (piece_args nested) ps))"
  shows "isl (render_pieces expand X kw ps)"
  using assms(3)
proof (induction ps)
  case Nil
  then show ?case by simp
next
  case (Cons p ps)
  show ?case
  proof (cases p)
    case (Literal t)
    with Cons have "isl (render_pieces expand X kw ps)" by simp
    with Literal show ?thesis by (cases "render_pieces expand X kw ps") simp_all
  next
    case (Replacement name conv spec)
    show ?thesis
    proof (cases "a \<in> set (piece_args nested p)")
      case True
      have "isl (render_field expand X kw name conv spec)"
      proof (cases "a = arg_name name")
        case True
        with assms(1) show ?thesis by (simp add: render_field_unknown)
      next
        case False
        with True Replacement have "123 \<in> set spec" "a \<in> set (nested spec)"
          by (simp_all split: if_splits)
        from this(1) assms(2) [OF this] show ?thesis by (rule render_field_spec_fails)
      qed
      with Replacement show ?thesis
        by (cases "render_field expand X kw name conv spec") simp_all
    next
      case False
      with Cons have "isl (render_pieces expand X kw ps)" by simp
      with Replacement show ?thesis
        by (cases "render_pieces expand X kw ps") (simp_all split: sum.splits)
    qed
  qed
qed

lemma format_at_unknown:
  "a \<in> set (template_args d s) \<Longrightarrow> kw a = None \<Longrightarrow> isl (format_at X kw k s)"
proof (induction d arbitrary: s k)
  case 0
  then show ?case by simp
next
  case (Suc d)
  show ?case
  proof (cases k)
    case 0
    then show ?thesis by simp
  next
    case (Suc k')
    obtain ps err where p: "pieces s = (ps, err)" by (cases "pieces s")
    with Suc.prems(1) have a: "a \<in> set (concat (map (piece_args (template_args d)) ps))"
      by simp
    have "isl (render_pieces (format_at X kw k') X kw ps)"
      using Suc.prems(2) Suc.IH [OF _ Suc.prems(2)] a
      by (rule render_pieces_unknown [where nested = "template_args d"])
    then show ?thesis
      using p \<open>k = Suc k'\<close>
      by (cases "render_pieces (format_at X kw k') X kw ps") simp_all
  qed
qed

lemma make_body_unknown:
  assumes "a \<in> set (placeholders (template env))" and "a \<notin> set recognized_fields"
  shows "isl (make_body X env fio debt)"
proof -
  define kw where "kw = map_of [(ascii ''FIO'', fio), (ascii ''DEBT'', format_money X debt),
                (ascii ''TODAY'', date_dmy X (today env)), (ascii ''DUE'', date_dmy X (due env))]"
  have "kw a = None"
    using assms(2) by (simp add: kw_def recognized_fields_def)
  from format_at_unknown [of a 2 "template env" kw X 2, OF assms(1) [unfolded placeholders_def] this] show ?thesis
    unfolding make_body_def py_format_def kw_def .
qed

text \<open>
  A plain template is composed for every debtor, so the hypothesis that every body can
  be made holds for it whatever the rows are.
\<close>

lemma render_field_plain:
  assumes "name \<in> set recognized_fields" and "kw name = Some v"
  shows "render_field expand X kw name None [] = Inr v"
proof -
  from assms(1) have "arg_name name = name" "accessors name = []" "name \<noteq> []"
    "\<not> list_all is_digit name"
    by (auto simp: recognized_fields_def arg_name_def accessors_def ascii_def is_digit_def)
  with assms(2) show ?thesis by (simp add: render_field_def)
qed

lemma render_pieces_plain:
  assumes "list_all plain_piece ps" and "\<forall>a\<in>set recognized_fields. kw a \<noteq> None"
  shows "\<not> isl (render_pieces expand X kw ps)"
  using assms(1)
proof (induction ps)
  case Nil
  then show ?case by simp
next
  case (Cons p ps)
  then have rest: "\<not> isl (render_pieces expand X kw ps)" by simp
  show ?case
  proof (cases p)
    case (Literal t)
    with rest show ?thesis by (cases "render_pieces expand X kw ps") simp_all
  next
    case (Replacement name conv spec)
    with Cons.prems have n: "name \<in> set recognized_fields" and c: "conv = None" "spec = []"
      by simp_all
    from n assms(2) obtain v where "kw name = Some v" by auto
    from render_field_plain [of name kw v expand X, OF n this] rest Replacement c show ?thesis
      by (cases "render_pieces expand X kw ps") simp_all
  qed
qed

lemma format_at_plain:
  assumes "pieces s = (ps, None)" and "\<not> isl (render_pieces (format_at X kw d) X kw ps)"
  shows "\<not> isl (format_at X kw (Suc d) s)"
proof -
  from assms(2) obtain out where "render_pieces (format_at X kw d) X kw ps = Inr out"
    by (cases "render_pieces (format_at X kw d) X kw ps") auto
  with assms(1) show ?thesis by simp
qed

lemma make_body_plain:
  assumes "plain_template (template env)"
  shows "\<not> isl (make_body X env fio debt)"
proof -
  define kw where "kw = map_of [(ascii ''FIO'', fio), (ascii ''DEBT'', format_money X debt),
                (ascii ''TODAY'', date_dmy X (today env)), (ascii ''DUE'', date_dmy X (due env))]"
  have kw: "\<forall>a\<in>set recognized_fields. kw a \<noteq> None"
    by (simp add: kw_def recognized_fields_def ascii_def)
  from assms obtain ps where p: "pieces (template env) = (ps, None)" and pl: "list_all plain_piece ps"
    by (cases "pieces (template env)") (simp add: plain_template_def)
  from format_at_plain [OF p render_pieces_plain [OF pl kw]]
  have "\<not> isl (format_at X kw (Suc (Suc 0)) (template env))" .
  then show ?thesis
    unfolding make_body_def py_format_def numeral_2_eq_2 kw_def .
qed

text \<open>The small batch: its bodies, its addresses, its server and its ledger file.\<close>

lemma demo_template_plain: "plain_template (template demo_env)"
  by (simp add: plain_template_def demo_env_def format_eval recognized_fields_def)

lemma demo_bodies:
  "\<forall>r\<in>set rs. \<not> isl (row_body X (demo_env\<lparr>dry_run := b\<rparr>) r)"
  using make_body_plain [of "demo_env\<lparr>dry_run := b\<rparr>" X] demo_template_plain
  by (simp add: row_body_def demo_env_def)

lemma demo_valid:
  "valid_addr X (demo_env\<lparr>dry_run := b\<rparr>) (demo_row ''Ivanov'' ''a@x.ru'' 100)"
  "\<not> valid_addr X (demo_env\<lparr>dry_run := b\<rparr>) (demo_row ''Petrov'' ''none'' 5)"
  "valid_addr X (demo_env\<lparr>dry_run := b\<rparr>) (demo_row ''Sidorov'' ''c@x.ru'' 7)"
  by (simp_all add: demo_env_def demo_row_def row_eval ascii_def)

lemma demo_dry: "demo_env\<lparr>dry_run := True\<rparr> = demo_env"
  by (simp add: demo_env_def)

lemma demo_served:
  "smtp_server demo_outside 1 q = None" "smtp_server demo_outside (Suc 0) q = None"
  "smtp_server demo_outside 3 q = Some (ascii ''refused'')"
  "smtp_server demo_outside (Suc 2) q = Some (ascii ''refused'')"
  "smtp_server demo_outside (Suc (Suc (Suc 0))) q = Some (ascii ''refused'')"
  "ledger_fault demo_outside i = None"
  "smtp_server demo_outside_locked 1 q = None" "smtp_server demo_outside_locked (Suc 0) q = None"
  "ledger_fault demo_outside_locked i = Some (ascii ''Permission denied'')"
  by (simp_all add: demo_outside_def demo_outside_locked_def sample_server_def)

lemma demo_real_log:
  "map_sum id (\<lambda>st. (map o_status (log_rows st), ok st, fail st))
     (snd (dispatch_loop demo_outside demo_env_real 3 1 demo_rows (empty_world, start_state)))
     = Inr ([status_ok, status_error, status_error], 1, 2)"
proof -
  let ?X = demo_outside and ?env = demo_env_real
  have b: "\<forall>r\<in>set demo_rows. \<not> isl (row_body ?X ?env r)"
    using demo_bodies [of demo_rows ?X False] by (simp add: demo_env_real_def)
  have d: "\<not> dry_run ?env" by (simp add: demo_env_real_def demo_env_def)
  have v: "valid_addr ?X ?env (demo_row ''Ivanov'' ''a@x.ru'' 100)"
    "\<not> valid_addr ?X ?env (demo_row ''Petrov'' ''none'' 5)"
    "valid_addr ?X ?env (demo_row ''Sidorov'' ''c@x.ru'' 7)"
    using demo_valid [of ?X False] by (simp_all add: demo_env_real_def)
  from b obtain w' st' where
    run: "dispatch_loop ?X ?env 3 1 demo_rows (empty_world, start_state) = (w', Inr st')"
    and post: "loop_post ?X ?env 1 demo_rows (empty_world, start_state) (w', st')"
    by (rule loop_from_start)
  have o1: "o_status (row_outcome ?X ?env (1, demo_row ''Ivanov'' ''a@x.ru'' 100)) = status_ok"
    using outcome_entered [OF v(1) d, of 1] by (simp add: demo_served)
  have o2: "o_status (row_outcome ?X ?env (2, demo_row ''Petrov'' ''none'' 5)) = status_error"
    using outcome_invalid [OF v(2)] by simp
  have o3: "o_status (row_outcome ?X ?env (3, demo_row ''Sidorov'' ''c@x.ru'' 7)) = status_error"
    using outcome_refused [OF v(3) d, of 3 "ascii ''refused''"] by (simp add: demo_served)
  from post o1 o2 o3 status_distinct have
    "map o_status (log_rows st') = [status_ok, status_error, status_error]" "ok st' = 1" "fail st' = 2"
    by (simp_all add: loop_post_def Let_def start_state_def demo_rows_def eval_nat_numeral)
  with run show ?thesis by simp
qed

text \<open>
  Claim C1, as the code has it. For every sequence of rows whose letters can all be
  composed, the loop returns with one record per row, in the order of the rows: a row
  whose address has no \<^verbatim>\<open>@\<close> is recorded with the status of a failure (\<open>status_error\<close>)
  and the text of line 434, and the rows after it are processed. For three rows of which
  only the second has no \<^verbatim>\<open>@\<close> (and, in a real run, whose other two letters the server
  accepts and the ledger takes) the log is success, failure, success, with two successes
  and one failure counted.
\<close>

theorem fault_isolation:
  assumes "\<forall>r\<in>set rs. \<not> isl (row_body X env r)"
  shows "\<exists>w' st'. dispatch_loop X env n 1 rs (w, start_state) = (w', Inr st')
     \<and> log_rows st' = map (row_outcome X env) (enumerate_from 1 rs)
     \<and> length (log_rows st') = length rs
     \<and> (\<forall>k<length rs. \<not> valid_addr X env (rs ! k) \<longrightarrow>
           o_status (log_rows st' ! k) = status_error
           \<and> o_comment (log_rows st' ! k) = invalid_email_text)
     \<and> (\<forall>r1 r2 r3. rs = [r1, r2, r3] \<and> valid_addr X env r1 \<and> \<not> valid_addr X env r2
           \<and> valid_addr X env r3
           \<and> (dry_run env \<or> (smtp_server X 1 (row_request X env r1) = None \<and> ledger_fault X 1 = None
                              \<and> smtp_server X 3 (row_request X env r3) = None \<and> ledger_fault X 3 = None)) \<longrightarrow>
           map o_status (log_rows st') =
             [if dry_run env then status_dry_run else status_ok, status_error,
              if dry_run env then status_dry_run else status_ok]
           \<and> ok st' = 2 \<and> fail st' = 1)"
proof -
  from assms obtain w' st' where
    run: "dispatch_loop X env n 1 rs (w, start_state) = (w', Inr st')"
    and post: "loop_post X env 1 rs (w, start_state) (w', st')"
    by (rule loop_from_start)
  let ?out = "map (row_outcome X env) (enumerate_from 1 rs)"
  from post have lg: "log_rows st' = ?out"
    and k: "ok st' = length (filter (\<lambda>oc. o_status oc \<noteq> status_error) ?out)"
    and f: "fail st' = length (filter (\<lambda>oc. o_status oc = status_error) ?out)"
    by (simp_all add: loop_post_def start_state_def Let_def)
  have bad: "o_status (log_rows st' ! k) = status_error
      \<and> o_comment (log_rows st' ! k) = invalid_email_text"
    if "k < length rs" "\<not> valid_addr X env (rs ! k)" for k
    using that by (simp add: lg enumerate_from_nth outcome_invalid)
  have three: "map o_status (log_rows st') =
             [if dry_run env then status_dry_run else status_ok, status_error,
              if dry_run env then status_dry_run else status_ok]
           \<and> ok st' = 2 \<and> fail st' = 1"
    if "rs = [r1, r2, r3]" "valid_addr X env r1" "\<not> valid_addr X env r2" "valid_addr X env r3"
      "dry_run env \<or> (smtp_server X 1 (row_request X env r1) = None \<and> ledger_fault X 1 = None
                              \<and> smtp_server X 3 (row_request X env r3) = None \<and> ledger_fault X 3 = None)"
    for r1 r2 r3
  proof -
    have s1: "o_status (row_outcome X env (1, r1)) = (if dry_run env then status_dry_run else status_ok)"
      using that by (intro outcome_success) auto
    have s3: "o_status (row_outcome X env (3, r3)) = (if dry_run env then status_dry_run else status_ok)"
      using that by (intro outcome_success) auto
    have s2: "o_status (row_outcome X env (2, r2)) = status_error"
      using that outcome_invalid by blast
    show ?thesis
      using s1 s2 s3 status_distinct
      by (simp add: lg k f that(1) eval_nat_numeral)
  qed
  have len: "length (log_rows st') = length rs"
    by (simp add: lg)
  from bad have B: "\<forall>k<length rs. \<not> valid_addr X env (rs ! k) \<longrightarrow>
           o_status (log_rows st' ! k) = status_error
           \<and> o_comment (log_rows st' ! k) = invalid_email_text"
    by blast
  from three have T: "\<forall>r1 r2 r3. rs = [r1, r2, r3] \<and> valid_addr X env r1 \<and> \<not> valid_addr X env r2
           \<and> valid_addr X env r3
           \<and> (dry_run env \<or> (smtp_server X 1 (row_request X env r1) = None \<and> ledger_fault X 1 = None
                              \<and> smtp_server X 3 (row_request X env r3) = None \<and> ledger_fault X 3 = None)) \<longrightarrow>
           map o_status (log_rows st') =
             [if dry_run env then status_dry_run else status_ok, status_error,
              if dry_run env then status_dry_run else status_ok]
           \<and> ok st' = 2 \<and> fail st' = 1"
    by blast
  from run lg len B T show ?thesis by blast
qed

text \<open>The small batch in a rehearsal: the third row is processed after the second failed.\<close>

theorem fault_isolation_example:
  "\<exists>w' st'. dispatch_loop demo_outside demo_env 3 1 demo_rows (empty_world, start_state) = (w', Inr st')
     \<and> map o_status (log_rows st') = [status_dry_run, status_error, status_dry_run]
     \<and> ok st' = 2 \<and> fail st' = 1"
proof -
  have b: "\<forall>r\<in>set demo_rows. \<not> isl (row_body demo_outside demo_env r)"
    using demo_bodies [of demo_rows demo_outside True] by (simp add: demo_dry)
  have d: "dry_run demo_env" by (simp add: demo_env_def)
  have v: "valid_addr demo_outside demo_env (demo_row ''Ivanov'' ''a@x.ru'' 100)"
    "\<not> valid_addr demo_outside demo_env (demo_row ''Petrov'' ''none'' 5)"
    "valid_addr demo_outside demo_env (demo_row ''Sidorov'' ''c@x.ru'' 7)"
    using demo_valid [of demo_outside True] by (simp_all add: demo_dry)
  from fault_isolation [OF b, of 3 empty_world] d v show ?thesis
    unfolding demo_rows_def by (metis (full_types))
qed

text \<open>
  The claim as the specification states it, for every sequence of rows, fails where a
  letter cannot be composed. With the template \<^verbatim>\<open>{FIO[0]}., pay {DEBT}\<close> the preview of
  the first debtor is made and the first row is processed; for the second row, whose name
  is blank and whose address has no \<^verbatim>\<open>@\<close>, line 428 raises \<^verbatim>\<open>IndexError\<close> before the
  \<^verbatim>\<open>try\<close>: no failure is recorded for it and the third row is not processed. And in
  the real run of the small batch, where only the second address has no \<^verbatim>\<open>@\<close>, the
  server refuses the third letter: two failures are recorded, not one.
\<close>

theorem fault_isolation_fails:
  "\<not> valid_addr demo_outside demo_env_initial (demo_rows_blank ! 1)
   \<and> run_page demo_outside demo_env_initial demo_rows_blank empty_world
       = (empty_world\<lparr>progress := [(1, 3, 1, 0)]\<rparr>, Raised IndexError)
   \<and> map (valid_addr demo_outside demo_env_real) demo_rows = [True, False, True]
   \<and> map_sum id (\<lambda>st. (map o_status (log_rows st), ok st, fail st))
        (snd (dispatch_loop demo_outside demo_env_real 3 1 demo_rows (empty_world, start_state)))
       = Inr ([status_ok, status_error, status_error], 1, 2)"
proof -
  have "\<not> valid_addr demo_outside demo_env_initial (demo_rows_blank ! 1)"
    by (simp add: demo_rows_blank_def demo_env_initial_def demo_env_def demo_row_def row_eval
        ascii_def)
  moreover have "run_page demo_outside demo_env_initial demo_rows_blank empty_world
       = (empty_world\<lparr>progress := [(1, 3, 1, 0)]\<rparr>, Raised IndexError)"
    by (simp add: demo_rows_blank_def demo_env_initial_def demo_defs first_letter_def loop_eval
        row_eval format_eval)
  moreover have "map (valid_addr demo_outside demo_env_real) demo_rows = [True, False, True]"
    using demo_valid [of demo_outside False] by (simp add: demo_env_real_def demo_rows_def)
  ultimately show ?thesis
    using demo_real_log by (intro conjI)
qed

text \<open>
  Claim C2, as the code has it. In a rehearsal (\<^verbatim>\<open>dry_run\<close>) the loop, from any state and
  over any rows, leaves the ledger file as it was, calls \<^verbatim>\<open>send_email_smtp\<close> for no row
  and pauses for no row; and when the letters of the rows can all be composed, every
  row with a valid address is recorded with the status \<^verbatim>\<open>OK (dry-run)\<close> and the comment
  of line 444.
\<close>

theorem dry_run_frame:
  assumes "dry_run env"
  shows "ledger_file (fst (dispatch_loop X env n idx rs (w, st))) = ledger_file w
      \<and> sent (fst (dispatch_loop X env n idx rs (w, st))) = sent w
      \<and> slept (fst (dispatch_loop X env n idx rs (w, st))) = slept w
      \<and> ((\<forall>r\<in>set rs. \<not> isl (row_body X env r)) \<longrightarrow>
           (\<exists>st'. snd (dispatch_loop X env n 1 rs (w, start_state)) = Inr st'
              \<and> length (log_rows st') = length rs
              \<and> (\<forall>k<length rs. valid_addr X env (rs ! k) \<longrightarrow>
                    o_status (log_rows st' ! k) = status_dry_run
                    \<and> o_comment (log_rows st' ! k) = dry_run_comment)))"
proof -
  have "\<exists>st'. snd (dispatch_loop X env n 1 rs (w, start_state)) = Inr st'
              \<and> length (log_rows st') = length rs
              \<and> (\<forall>k<length rs. valid_addr X env (rs ! k) \<longrightarrow>
                    o_status (log_rows st' ! k) = status_dry_run
                    \<and> o_comment (log_rows st' ! k) = dry_run_comment)"
    if bodies: "\<forall>r\<in>set rs. \<not> isl (row_body X env r)"
  proof -
    from bodies obtain w' st' where
      run: "dispatch_loop X env n 1 rs (w, start_state) = (w', Inr st')"
      and post: "loop_post X env 1 rs (w, start_state) (w', st')"
      by (rule loop_from_start)
    from post have lg: "log_rows st' = map (row_outcome X env) (enumerate_from 1 rs)"
      by (simp add: loop_post_def start_state_def Let_def)
    have "o_status (log_rows st' ! k) = status_dry_run
        \<and> o_comment (log_rows st' ! k) = dry_run_comment"
      if "k < length rs" "valid_addr X env (rs ! k)" for k
      using that assms by (simp add: lg enumerate_from_nth outcome_dry_run)
    with run lg show ?thesis by simp
  qed
  with dispatch_loop_dry_frame [OF assms, of X n idx rs w st] show ?thesis
    by blast
qed

text \<open>The small batch in a rehearsal.\<close>

theorem dry_run_frame_example:
  "ledger_file (fst (dispatch_loop demo_outside demo_env 3 1 demo_rows (empty_world, start_state))) = None
   \<and> sent (fst (dispatch_loop demo_outside demo_env 3 1 demo_rows (empty_world, start_state))) = []
   \<and> slept (fst (dispatch_loop demo_outside demo_env 3 1 demo_rows (empty_world, start_state))) = []
   \<and> (\<exists>st'. snd (dispatch_loop demo_outside demo_env 3 1 demo_rows (empty_world, start_state)) = Inr st'
        \<and> length (log_rows st') = 3
        \<and> o_status (log_rows st' ! 0) = status_dry_run
        \<and> o_comment (log_rows st' ! 0) = dry_run_comment
        \<and> o_status (log_rows st' ! 2) = status_dry_run)"
proof -
  have b: "\<forall>r\<in>set demo_rows. \<not> isl (row_body demo_outside demo_env r)"
    using demo_bodies [of demo_rows demo_outside True] by (simp add: demo_dry)
  have d: "dry_run demo_env" by (simp add: demo_env_def)
  have v: "valid_addr demo_outside demo_env (demo_rows ! 0)"
    "valid_addr demo_outside demo_env (demo_rows ! 2)"
    using demo_valid [of demo_outside True] by (simp_all add: demo_dry demo_rows_def)
  have l: "length demo_rows = 3" by (simp add: demo_rows_def)
  have e: "ledger_file empty_world = None" "sent empty_world = []" "slept empty_world = []"
    by (simp_all add: empty_world_def)
  from dry_run_frame [OF d, of demo_outside 3 1 demo_rows empty_world start_state] b
  obtain st' where
    f: "ledger_file (fst (dispatch_loop demo_outside demo_env 3 1 demo_rows (empty_world, start_state))) = ledger_file empty_world"
      "sent (fst (dispatch_loop demo_outside demo_env 3 1 demo_rows (empty_world, start_state))) = sent empty_world"
      "slept (fst (dispatch_loop demo_outside demo_env 3 1 demo_rows (empty_world, start_state))) = slept empty_world"
    and s: "snd (dispatch_loop demo_outside demo_env 3 1 demo_rows (empty_world, start_state)) = Inr st'"
      "length (log_rows st') = length demo_rows"
    and a: "\<forall>k<length demo_rows. valid_addr demo_outside demo_env (demo_rows ! k) \<longrightarrow>
                    o_status (log_rows st' ! k) = status_dry_run
                    \<and> o_comment (log_rows st' ! k) = dry_run_comment"
    by blast
  from a v l have "o_status (log_rows st' ! 0) = status_dry_run"
    "o_comment (log_rows st' ! 0) = dry_run_comment"
    "o_status (log_rows st' ! 2) = status_dry_run"
    by simp_all
  with f s e l show ?thesis by simp
qed

text \<open>
  The claim as the specification states it, a record for every row with a valid address
  of every debtor set, fails where a letter cannot be composed: in this rehearsal the
  second row has a valid address, and the run is left at line 428 with the first row
  processed and no record for the second.
\<close>

theorem dry_run_needs_bodies:
  "dry_run demo_env_initial
   \<and> valid_addr demo_outside demo_env_initial (demo_row '' '' ''b@x.ru'' 5)
   \<and> run_page demo_outside demo_env_initial
         [demo_row ''Ivanov'' ''a@x.ru'' 100, demo_row '' '' ''b@x.ru'' 5] empty_world
       = (empty_world\<lparr>progress := [(1, 2, 1, 0)]\<rparr>, Raised IndexError)"
  by (simp add: demo_env_initial_def demo_defs first_letter_def loop_eval row_eval format_eval)




text \<open>
  Claim C7. When the template has a field whose argument is none of \<^verbatim>\<open>FIO\<close>, \<^verbatim>\<open>DEBT\<close>,
  \<^verbatim>\<open>TODAY\<close>, \<^verbatim>\<open>DUE\<close>, \<^verbatim>\<open>make_body\<close> raises for every debtor; a turn of the loop is left
  by that exception with nothing recorded, sent or written; a handler that passed the
  checks before the loop is left by it at its first row; and neither the handler nor the
  run of the page, which makes the preview first, ever finishes the batch or changes the
  ledger, the server or the clock.
\<close>

theorem template_error_stops_batch:
  assumes "a \<in> set (placeholders (template env))" and "a \<notin> set recognized_fields"
  shows "(\<forall>fio debt. isl (make_body X env fio debt))
       \<and> (\<forall>n idx r ws. \<exists>e. process_row X env n idx r ws = (fst ws, Inl e))
       \<and> (preflight env debtors = None \<longrightarrow> (\<exists>e. send_clicked X env debtors w = (w, Raised e)))
       \<and> \<not> is_Finished (snd (send_clicked X env debtors w))
       \<and> fst (send_clicked X env debtors w) = w
       \<and> \<not> is_Finished (snd (run_page X env debtors w))
       \<and> fst (run_page X env debtors w) = w"
proof -
  have mb: "isl (make_body X env fio debt)" for fio debt
    using make_body_unknown [OF assms] .
  then have row: "\<exists>e. process_row X env n idx r ws = (fst ws, Inl e)" for n idx r ws
    using process_row_raises [of X env r n idx ws] by (simp add: row_body_def)
  have raised: "\<exists>e. send_clicked X env debtors w = (w, Raised e)" if p: "preflight env debtors = None"
  proof -
    from p obtain r rs where d: "debtors = r # rs"
      by (cases debtors) (auto simp: preflight_def)
    from row [of "length debtors" 1 r "(w, \<lparr>log_rows = [], ok = 0, fail = 0\<rparr>)"] obtain e where
      "process_row X env (length debtors) 1 r (w, \<lparr>log_rows = [], ok = 0, fail = 0\<rparr>) = (w, Inl e)"
      by auto
    with p d have "send_clicked X env debtors w = (w, Raised e)"
      by (simp add: send_clicked_def)
    then show ?thesis ..
  qed
  have handler: "\<not> is_Finished (snd (send_clicked X env debtors w)) \<and> fst (send_clicked X env debtors w) = w"
  proof (cases "preflight env debtors")
    case None
    from raised [OF None] show ?thesis by auto
  next
    case (Some reason)
    then show ?thesis by (simp add: send_clicked_def)
  qed
  then have "\<not> is_Finished (snd (run_page X env debtors w)) \<and> fst (run_page X env debtors w) = w"
    by (cases "preview X env debtors") (simp_all add: run_page_def)
  with mb row raised handler show ?thesis by blast
qed

text \<open>The small batch with the template \<^verbatim>\<open>Dear {NAME}\<close>.\<close>

theorem template_error_example:
  "isl (make_body demo_outside demo_env_bad_template (ascii ''Ivanov'') (Finite 100))
   \<and> (\<exists>e. send_clicked demo_outside demo_env_bad_template demo_rows empty_world = (empty_world, Raised e))
   \<and> \<not> is_Finished (snd (run_page demo_outside demo_env_bad_template demo_rows empty_world))"
proof -
  have a: "ascii ''NAME'' \<in> set (placeholders (template demo_env_bad_template))"
    by (simp add: demo_env_bad_template_def placeholders_def format_eval)
  have r: "ascii ''NAME'' \<notin> set recognized_fields"
    by (simp add: recognized_fields_def ascii_def)
  have p: "preflight demo_env_bad_template demo_rows = None"
    by (simp add: preflight_def demo_env_bad_template_def demo_env_def demo_rows_def)
  from template_error_stops_batch [OF a r, of demo_outside demo_rows empty_world] p show ?thesis
    by blast
qed

text \<open>
  Claim C9. The handler stops before the loop exactly when there is no debtor, or, in a
  real run, when the SMTP host is empty, the sender is empty, or a login is given without
  a password; when it stops nothing has been sent, written or recorded; and a rehearsal
  with at least one debtor passes the checks whatever the send settings are.
\<close>

theorem preflight_stops:
  "is_Stopped (snd (send_clicked X env debtors w)) =
     (debtors = [] \<or> (\<not> dry_run env \<and>
        (smtp_host env = [] \<or> from_addr env = [] \<or> (smtp_user env \<noteq> [] \<and> smtp_password env = []))))
   \<and> (is_Stopped (snd (send_clicked X env debtors w)) \<longrightarrow> fst (send_clicked X env debtors w) = w)
   \<and> (dry_run env \<and> debtors \<noteq> [] \<longrightarrow> preflight env debtors = None)"
proof -
  have "is_Stopped (snd (send_clicked X env debtors w)) = (preflight env debtors \<noteq> None)"
    by (auto simp: send_clicked_def split: option.splits prod.splits sum.splits)
  moreover have "preflight env debtors \<noteq> None \<Longrightarrow> fst (send_clicked X env debtors w) = w"
    by (auto simp: send_clicked_def)
  moreover have "dry_run env \<and> debtors \<noteq> [] \<longrightarrow> preflight env debtors = None"
    by (simp add: preflight_def)
  ultimately show ?thesis
    using preflight_Some_iff [of env debtors] by blast
qed

text \<open>The small batch: a real run without a host stops; the rehearsal does not.\<close>

theorem preflight_example:
  "is_Stopped (snd (send_clicked demo_outside demo_env_no_host demo_rows empty_world))
   \<and> fst (send_clicked demo_outside demo_env_no_host demo_rows empty_world) = empty_world
   \<and> \<not> is_Stopped (snd (send_clicked demo_outside demo_env demo_rows empty_world))
   \<and> preflight demo_env demo_rows = None"
proof -
  have h: "\<not> dry_run demo_env_no_host" "smtp_host demo_env_no_host = []"
    by (simp_all add: demo_env_no_host_def)
  have d: "dry_run demo_env" "demo_rows \<noteq> []"
    by (simp_all add: demo_env_def demo_rows_def)
  from preflight_stops [of demo_outside demo_env_no_host demo_rows empty_world]
    preflight_stops [of demo_outside demo_env demo_rows empty_world] h d
  show ?thesis by blast
qed

text \<open>
  Claim C10. Whenever the handler runs the loop to its end over \<open>n\<close> debtors, the log has
  \<open>n\<close> records, the record of each row in the order of the rows, and the successes and
  the failures counted add up to \<open>n\<close>: they are the numbers of records without and with
  the status of a failure (\<open>status_error\<close>).
\<close>

theorem outcome_log_complete:
  assumes "send_clicked X env debtors w = (w', Finished lg k f)"
  shows "length lg = length debtors \<and> k + f = length debtors
       \<and> lg = map (row_outcome X env) (enumerate_from 1 debtors)
       \<and> k = length (filter (\<lambda>oc. o_status oc \<noteq> status_error) lg)
       \<and> f = length (filter (\<lambda>oc. o_status oc = status_error) lg)"
proof -
  let ?out = "map (row_outcome X env) (enumerate_from 1 debtors)"
  from send_clicked_Finished [OF assms] have
    lg: "lg = ?out"
    and k: "k = length (filter (\<lambda>oc. o_status oc \<noteq> status_error) ?out)"
    and f: "f = length (filter (\<lambda>oc. o_status oc = status_error) ?out)"
    by (auto simp: loop_post_def start_state_def Let_def)
  have "k + f = length ?out"
    unfolding k f using sum_length_filter_compl [of "\<lambda>oc. o_status oc = status_error" ?out]
    by simp
  with lg k f show ?thesis by simp
qed

text \<open>The small batch in a rehearsal runs to its end with three records.\<close>

theorem outcome_log_example:
  "\<exists>w' lg k f. send_clicked demo_outside demo_env demo_rows empty_world = (w', Finished lg k f)
     \<and> length lg = 3 \<and> k + f = 3
     \<and> map o_status lg = [status_dry_run, status_error, status_dry_run]"
proof -
  have b: "\<forall>r\<in>set demo_rows. \<not> isl (row_body demo_outside demo_env r)"
    using demo_bodies [of demo_rows demo_outside True] by (simp add: demo_dry)
  have d: "dry_run demo_env" by (simp add: demo_env_def)
  have v: "valid_addr demo_outside demo_env (demo_row ''Ivanov'' ''a@x.ru'' 100)"
    "\<not> valid_addr demo_outside demo_env (demo_row ''Petrov'' ''none'' 5)"
    "valid_addr demo_outside demo_env (demo_row ''Sidorov'' ''c@x.ru'' 7)"
    using demo_valid [of demo_outside True] by (simp_all add: demo_dry)
  have l: "length demo_rows = 3" by (simp add: demo_rows_def)
  have p: "preflight demo_env demo_rows = None"
    by (simp add: preflight_def demo_env_def demo_rows_def)
  from b obtain w' st' where
    run: "dispatch_loop demo_outside demo_env 3 1 demo_rows (empty_world, start_state) = (w', Inr st')"
    by (rule loop_from_start)
  have fin: "send_clicked demo_outside demo_env demo_rows empty_world
      = (w', Finished (log_rows st') (ok st') (fail st'))"
    using run p l by (simp add: send_clicked_def start_state_def)
  from outcome_log_complete [OF fin] have
    lg: "log_rows st' = map (row_outcome demo_outside demo_env) (enumerate_from 1 demo_rows)"
    and c: "length (log_rows st') = length demo_rows" "ok st' + fail st' = length demo_rows"
    by blast+
  have "map o_status (log_rows st') = [status_dry_run, status_error, status_dry_run]"
    unfolding lg using v d by (simp add: demo_rows_def outcome_invalid outcome_dry_run)
  with fin c l show ?thesis by simp
qed

end
